theory Spec2Isabelle
  imports Complex_Main "HOL-Library.Char_ord" "HOL-Library.List_Lexorder"
    "HOL-Library.Product_Lexorder" "HOL-Library.Option_ord"
begin

section \<open>Python values, exceptions and dictionaries\<close>

text \<open>
  Exceptions of the Python program are values: a function that may raise returns
  \<open>error + 'a\<close>, with \<open>Inl\<close> carrying the exception class. What the program prints
  is left out.
\<close>

datatype error =
    KeyError
  | TypeError
  | ValueError
  | OverflowError
  | ZeroDivisionError
  | ValidationError
  | IntegrityError
  | ConnectionError
  | HTTPError nat
  | JSONDecodeError
  | RateLimitException real

definition bind_err :: "error + 'a \<Rightarrow> ('a \<Rightarrow> error + 'b) \<Rightarrow> error + 'b" where
  "bind_err m f = (case m of Inl e \<Rightarrow> Inl e | Inr x \<Rightarrow> f x)"

text \<open>
  An observation is the dictionary the provider returns and \<open>query_by_date\<close> rebuilds.
  A key of a dictionary is absent (\<open>None\<close>), present with the value \<open>None\<close> of Python
  (\<open>Some None\<close>) or present with a value (\<open>Some (Some v)\<close>). The numeric fields live in
  the nested dictionary \<open>imperial\<close>, a map from key names to numbers or \<open>None\<close>.
  Numbers are mathematical reals: Python's floats are idealised, so sums, quotients and
  the rounding to two decimals are exact.
\<close>

type_synonym imperial_dict = "string \<rightharpoonup> real option"

record observation =
  stationID :: "string option option"
  obsTimeLocal :: "string option option"
  humidityAvg :: "real option option"
  imperial :: "imperial_dict option"

section \<open>Calendar dates and their text forms\<close>

text \<open>
  A \<open>date\<close> is (year, month, day) and a \<open>datetime\<close> a date with hour, minute and
  second. Python compares both field by field, which is the lexicographic order of the
  tuples.
\<close>

type_synonym date = "nat \<times> nat \<times> nat"
type_synonym datetime = "date \<times> nat \<times> nat \<times> nat"

definition is_leap :: "nat \<Rightarrow> bool" where
  "is_leap y = (y mod 4 = 0 \<and> (y mod 100 \<noteq> 0 \<or> y mod 400 = 0))"

definition days_in_month :: "nat \<Rightarrow> nat \<Rightarrow> nat" where
  "days_in_month y m =
     (if m = 2 then (if is_leap y then 29 else 28)
      else if m = 4 \<or> m = 6 \<or> m = 9 \<or> m = 11 then 30 else 31)"

definition valid_date :: "date \<Rightarrow> bool" where
  "valid_date dt = (case dt of (y, m, d) \<Rightarrow>
     1 \<le> y \<and> y \<le> 9999 \<and> 1 \<le> m \<and> m \<le> 12 \<and> 1 \<le> d \<and> d \<le> days_in_month y m)"

definition valid_datetime :: "datetime \<Rightarrow> bool" where
  "valid_datetime dt = (case dt of (d, H, M, S) \<Rightarrow> valid_date d \<and> H \<le> 23 \<and> M \<le> 59 \<and> S \<le> 59)"

text \<open>
  \<open>d + timedelta(days=1)\<close>: the next calendar day; past 9999-12-31 Python raises
  \<open>OverflowError\<close>.
\<close>

definition add_one_day :: "date \<Rightarrow> error + date" where
  "add_one_day dt = (case dt of (y, m, d) \<Rightarrow>
     if d < days_in_month y m then Inr (y, m, d + 1)
     else if m < 12 then Inr (y, m + 1, 1)
     else if y < 9999 then Inr (y + 1, 1, 1)
     else Inl OverflowError)"

subsection \<open>strftime\<close>

definition digit_char :: "nat \<Rightarrow> char" where
  "digit_char n = ''0123456789'' ! (n mod 10)"

definition pad2 :: "nat \<Rightarrow> string" where
  "pad2 n = [digit_char (n div 10), digit_char n]"

definition pad4 :: "nat \<Rightarrow> string" where
  "pad4 n = [digit_char (n div 1000), digit_char (n div 100), digit_char (n div 10), digit_char n]"

definition month_name :: "nat \<Rightarrow> string" where
  "month_name m =
     [''January'', ''February'', ''March'', ''April'', ''May'', ''June'', ''July'',
      ''August'', ''September'', ''October'', ''November'', ''December''] ! (m - 1)"

text \<open>
  \<open>strftime("%Y-%m-%d")\<close>, \<open>strftime("%Y%m%d")\<close>, \<open>strftime("%Y-%m-%d 00:00:00")\<close>
  and \<open>strftime("%B %d, %Y")\<close>. The year is rendered with four digits, as the
  documentation of \<open>datetime\<close> gives it (0001, ..., 9999); a C library that drops the
  leading zeros does so for the years before 1000 only. Month names are the English ones.
\<close>

definition strftime_Y_m_d :: "date \<Rightarrow> string" where
  "strftime_Y_m_d dt = (case dt of (y, m, d) \<Rightarrow> pad4 y @ ''-'' @ pad2 m @ ''-'' @ pad2 d)"

definition strftime_Ymd :: "date \<Rightarrow> string" where
  "strftime_Ymd dt = (case dt of (y, m, d) \<Rightarrow> pad4 y @ pad2 m @ pad2 d)"

definition strftime_midnight :: "date \<Rightarrow> string" where
  "strftime_midnight dt = strftime_Y_m_d dt @ '' 00:00:00''"

definition strftime_friendly :: "date \<Rightarrow> string" where
  "strftime_friendly dt = (case dt of (y, m, d) \<Rightarrow> month_name m @ '' '' @ pad2 d @ '', '' @ pad4 y)"

subsection \<open>strptime\<close>

text \<open>
  \<open>datetime.strptime\<close> turns the format into a regular expression and matches it against
  the text, trying the alternatives of each directive in their order and backtracking:
  \<open>%Y\<close> is \<open>\d\d\d\d\<close>, \<open>%m\<close> is \<open>1[0-2]|0[1-9]|[1-9]\<close>,
  \<open>%d\<close> is \<open>3[0-1]|[1-2]\d|0[1-9]|[1-9]| [1-9]\<close>, \<open>%H\<close> is \<open>2[0-3]|[0-1]\d|\d\<close>,
  \<open>%M\<close> is \<open>[0-5]\d|\d\<close>, \<open>%S\<close> is \<open>6[0-1]|[0-5]\d|\d\<close>, and white space of the
  format is \<open>\s+\<close>. A matcher returns every way to match a prefix, in the order the
  regular expression engine tries them, with the value read and the rest of the text.
  Text is ASCII: the digits are 0 to 9 and white space is the space, the characters 9 to 13
  and the separators 28 to 31.
\<close>

definition digit_val :: "char \<Rightarrow> nat" where
  "digit_val c = of_char c - 48"

definition digit_in :: "nat \<Rightarrow> nat \<Rightarrow> char \<Rightarrow> bool" where
  "digit_in lo hi c = (48 + lo \<le> (of_char c :: nat) \<and> (of_char c :: nat) \<le> 48 + hi)"

definition is_space :: "char \<Rightarrow> bool" where
  "is_space c =
     ((of_char c :: nat) = 32 \<or> (9 \<le> (of_char c :: nat) \<and> (of_char c :: nat) \<le> 13)
      \<or> (28 \<le> (of_char c :: nat) \<and> (of_char c :: nat) \<le> 31))"

fun one_digit :: "nat \<Rightarrow> nat \<Rightarrow> string \<Rightarrow> (nat \<times> string) list" where
  "one_digit lo hi (a # r) = (if digit_in lo hi a then [(digit_val a, r)] else [])"
| "one_digit lo hi [] = []"

fun two_digits :: "nat \<Rightarrow> nat \<Rightarrow> nat \<Rightarrow> nat \<Rightarrow> string \<Rightarrow> (nat \<times> string) list" where
  "two_digits lo1 hi1 lo2 hi2 (a # b # r) =
     (if digit_in lo1 hi1 a \<and> digit_in lo2 hi2 b then [(10 * digit_val a + digit_val b, r)] else [])"
| "two_digits lo1 hi1 lo2 hi2 s = []"

fun re_Y :: "string \<Rightarrow> (nat \<times> string) list" where
  "re_Y (a # b # c # d # r) =
     (if digit_in 0 9 a \<and> digit_in 0 9 b \<and> digit_in 0 9 c \<and> digit_in 0 9 d
      then [(1000 * digit_val a + 100 * digit_val b + 10 * digit_val c + digit_val d, r)] else [])"
| "re_Y s = []"

definition re_m :: "string \<Rightarrow> (nat \<times> string) list" where
  "re_m s = two_digits 1 1 0 2 s @ two_digits 0 0 1 9 s @ one_digit 1 9 s"

definition re_d :: "string \<Rightarrow> (nat \<times> string) list" where
  "re_d s = two_digits 3 3 0 1 s @ two_digits 1 2 0 9 s @ two_digits 0 0 1 9 s @ one_digit 1 9 s
     @ (case s of a # r \<Rightarrow> if a = CHR '' '' then one_digit 1 9 r else [] | [] \<Rightarrow> [])"

definition re_H :: "string \<Rightarrow> (nat \<times> string) list" where
  "re_H s = two_digits 2 2 0 3 s @ two_digits 0 1 0 9 s @ one_digit 0 9 s"

definition re_M :: "string \<Rightarrow> (nat \<times> string) list" where
  "re_M s = two_digits 0 5 0 9 s @ one_digit 0 9 s"

definition re_S :: "string \<Rightarrow> (nat \<times> string) list" where
  "re_S s = two_digits 6 6 0 1 s @ two_digits 0 5 0 9 s @ one_digit 0 9 s"

fun re_lit :: "char \<Rightarrow> string \<Rightarrow> string list" where
  "re_lit c (a # r) = (if a = c then [r] else [])"
| "re_lit c [] = []"

fun re_spaces :: "string \<Rightarrow> string list" where
  "re_spaces (a # r) = (if is_space a then re_spaces r @ [r] else [])"
| "re_spaces [] = []"

definition match_Y_m_d :: "string \<Rightarrow> (date \<times> string) list" where
  "match_Y_m_d s =
     concat (map (\<lambda>(y, s1). concat (map (\<lambda>s2. concat (map (\<lambda>(m, s3). concat (map (\<lambda>s4.
       map (\<lambda>(d, s5). ((y, m, d), s5)) (re_d s4))
       (re_lit CHR ''-'' s3))) (re_m s2))) (re_lit CHR ''-'' s1))) (re_Y s))"

definition match_H_M_S :: "string \<Rightarrow> ((nat \<times> nat \<times> nat) \<times> string) list" where
  "match_H_M_S s =
     concat (map (\<lambda>(H, s1). concat (map (\<lambda>s2. concat (map (\<lambda>(M, s3). concat (map (\<lambda>s4.
       map (\<lambda>(S, s5). ((H, M, S), s5)) (re_S s4))
       (re_lit CHR '':'' s3))) (re_M s2))) (re_lit CHR '':'' s1))) (re_H s))"

definition match_Y_m_d_H_M_S :: "string \<Rightarrow> (datetime \<times> string) list" where
  "match_Y_m_d_H_M_S s =
     concat (map (\<lambda>(d, s1). concat (map (\<lambda>s2.
       map (\<lambda>(t, s3). ((d, t), s3)) (match_H_M_S s2))
       (re_spaces s1))) (match_Y_m_d s))"

text \<open>
  \<open>datetime.strptime(s, "%Y-%m-%d")\<close> and \<open>datetime.strptime(s, "%Y-%m-%d %H:%M:%S")\<close>:
  no match, text left over after the first match, or field values that are no date or
  time of day raise \<open>ValueError\<close>. The first returns the date of a datetime at midnight.
\<close>

definition strptime_Y_m_d :: "string \<Rightarrow> error + date" where
  "strptime_Y_m_d s =
     (case match_Y_m_d s of
        [] \<Rightarrow> Inl ValueError
      | (d, rest) # _ \<Rightarrow>
          if rest \<noteq> [] then Inl ValueError
          else if \<not> valid_date d then Inl ValueError
          else Inr d)"

definition strptime_Y_m_d_H_M_S :: "string \<Rightarrow> error + datetime" where
  "strptime_Y_m_d_H_M_S s =
     (case match_Y_m_d_H_M_S s of
        [] \<Rightarrow> Inl ValueError
      | (dt, rest) # _ \<Rightarrow>
          if rest \<noteq> [] then Inl ValueError
          else if \<not> valid_datetime dt then Inl ValueError
          else Inr dt)"

section \<open>The daily summary\<close>

text \<open>
  \<open>DailyObservation\<close> is a pydantic model: fourteen fields, none with a default.
\<close>

record DailyObservation =
  station_id :: string
  obs_time_local :: string
  friendly_date :: string
  temp_high :: real
  temp_low :: real
  temp_avg :: real
  windspeed_high :: real
  windspeed_low :: real
  windspeed_avg :: real
  wind_chill_high :: real
  wind_chill_low :: real
  wind_chill_avg :: real
  precip_rate :: real
  precip_avg :: real

text \<open>
  The keyword arguments of a constructor call. \<open>None\<close> stands for a keyword that is not
  given or whose value is Python's \<open>None\<close>: a required field of type \<open>str\<close> or
  \<open>float\<close> accepts neither, and the constructor raises \<open>ValidationError\<close>.
\<close>

record DailyObservation_kwargs =
  kw_station_id :: "string option"
  kw_obs_time_local :: "string option"
  kw_friendly_date :: "string option"
  kw_temp_high :: "real option"
  kw_temp_low :: "real option"
  kw_temp_avg :: "real option"
  kw_windspeed_high :: "real option"
  kw_windspeed_low :: "real option"
  kw_windspeed_avg :: "real option"
  kw_wind_chill_high :: "real option"
  kw_wind_chill_low :: "real option"
  kw_wind_chill_avg :: "real option"
  kw_precip_rate :: "real option"
  kw_precip_avg :: "real option"

definition no_kwargs :: DailyObservation_kwargs where
  "no_kwargs = \<lparr> kw_station_id = None, kw_obs_time_local = None, kw_friendly_date = None,
     kw_temp_high = None, kw_temp_low = None, kw_temp_avg = None,
     kw_windspeed_high = None, kw_windspeed_low = None, kw_windspeed_avg = None,
     kw_wind_chill_high = None, kw_wind_chill_low = None, kw_wind_chill_avg = None,
     kw_precip_rate = None, kw_precip_avg = None \<rparr>"

definition required :: "'a option \<Rightarrow> error + 'a" where
  "required v = (case v of None \<Rightarrow> Inl ValidationError | Some x \<Rightarrow> Inr x)"

definition DailyObservation_init :: "DailyObservation_kwargs \<Rightarrow> error + DailyObservation" where
  "DailyObservation_init kw =
     bind_err (required (kw_station_id kw)) (\<lambda>a1.
     bind_err (required (kw_obs_time_local kw)) (\<lambda>a2.
     bind_err (required (kw_friendly_date kw)) (\<lambda>a3.
     bind_err (required (kw_temp_high kw)) (\<lambda>a4.
     bind_err (required (kw_temp_low kw)) (\<lambda>a5.
     bind_err (required (kw_temp_avg kw)) (\<lambda>a6.
     bind_err (required (kw_windspeed_high kw)) (\<lambda>a7.
     bind_err (required (kw_windspeed_low kw)) (\<lambda>a8.
     bind_err (required (kw_windspeed_avg kw)) (\<lambda>a9.
     bind_err (required (kw_wind_chill_high kw)) (\<lambda>a10.
     bind_err (required (kw_wind_chill_low kw)) (\<lambda>a11.
     bind_err (required (kw_wind_chill_avg kw)) (\<lambda>a12.
     bind_err (required (kw_precip_rate kw)) (\<lambda>a13.
     bind_err (required (kw_precip_avg kw)) (\<lambda>a14.
       Inr \<lparr> station_id = a1, obs_time_local = a2, friendly_date = a3,
             temp_high = a4, temp_low = a5, temp_avg = a6,
             windspeed_high = a7, windspeed_low = a8, windspeed_avg = a9,
             wind_chill_high = a10, wind_chill_low = a11, wind_chill_avg = a12,
             precip_rate = a13, precip_avg = a14 \<rparr>))))))))))))))"

subsection \<open>Rounding\<close>

text \<open>
  \<open>round(x, 2)\<close> of Python: the nearest multiple of 0.01, a tie going to the even
  neighbour.
\<close>

definition round_half_even :: "real \<Rightarrow> int" where
  "round_half_even x =
     (let f = \<lfloor>x\<rfloor>; r = x - of_int f
      in if r < 1 / 2 then f else if 1 / 2 < r then f + 1 else if even f then f else f + 1)"

definition round2 :: "real \<Rightarrow> real" where
  "round2 x = of_int (round_half_even (x * 100)) / 100"

definition py_div :: "real \<Rightarrow> nat \<Rightarrow> error + real" where
  "py_div x n = (if n = 0 then Inl ZeroDivisionError else Inr (x / real n))"

subsection \<open>compile\_daily\_data\<close>

text \<open>The local variables of the loop.\<close>

record accumulators =
  high_temp :: real
  low_temp :: real
  total_avg_temp :: real
  high_windspeed :: real
  low_windspeed :: real
  total_avg_windspeed :: real
  high_wind_chill :: real
  low_wind_chill :: real
  total_avg_windchill :: real
  high_precip_rate :: real
  precip_rate_avg :: real
  observation_count :: nat

definition initial_accumulators :: accumulators where
  "initial_accumulators = \<lparr> high_temp = 0, low_temp = 150, total_avg_temp = 0,
     high_windspeed = 0, low_windspeed = 150, total_avg_windspeed = 0,
     high_wind_chill = 0, low_wind_chill = 150, total_avg_windchill = 0,
     high_precip_rate = 0, precip_rate_avg = 0, observation_count = 0 \<rparr>"

text \<open>
  \<open>obs["imperial"][k]\<close> used as a number: a missing key raises \<open>KeyError\<close>, and the
  comparison or addition of \<open>None\<close> with a number raises \<open>TypeError\<close>.
\<close>

definition imperial_number :: "observation \<Rightarrow> string \<Rightarrow> error + real" where
  "imperial_number obs k =
     (case imperial obs of
        None \<Rightarrow> Inl KeyError
      | Some d \<Rightarrow>
          (case d k of
             None \<Rightarrow> Inl KeyError
           | Some None \<Rightarrow> Inl TypeError
           | Some (Some x) \<Rightarrow> Inr x))"

text \<open>One pass of the loop body; the fields are read in the order of the source.\<close>

definition loop_body :: "accumulators \<Rightarrow> observation \<Rightarrow> error + accumulators" where
  "loop_body acc obs =
     bind_err (imperial_number obs ''tempHigh'') (\<lambda>tempHigh.
     bind_err (imperial_number obs ''tempLow'') (\<lambda>tempLow.
     bind_err (imperial_number obs ''tempAvg'') (\<lambda>tempAvg.
     bind_err (imperial_number obs ''windspeedHigh'') (\<lambda>windspeedHigh.
     bind_err (imperial_number obs ''windspeedLow'') (\<lambda>windspeedLow.
     bind_err (imperial_number obs ''windspeedAverage'') (\<lambda>windspeedAverage.
     bind_err (imperial_number obs ''windchillHigh'') (\<lambda>windchillHigh.
     bind_err (imperial_number obs ''windchillLow'') (\<lambda>windchillLow.
     bind_err (imperial_number obs ''windchillAverage'') (\<lambda>windchillAverage.
     bind_err (imperial_number obs ''precipRate'') (\<lambda>precipRate.
     bind_err (imperial_number obs ''precipAverage'') (\<lambda>precipAverage.
       Inr \<lparr> high_temp = (if tempHigh > high_temp acc then tempHigh else high_temp acc),
             low_temp = (if tempLow < low_temp acc then tempLow else low_temp acc),
             total_avg_temp = total_avg_temp acc + tempAvg,
             high_windspeed =
               (if windspeedHigh > high_windspeed acc then windspeedHigh else high_windspeed acc),
             low_windspeed =
               (if windspeedLow < low_windspeed acc then windspeedLow else low_windspeed acc),
             total_avg_windspeed = total_avg_windspeed acc + windspeedAverage,
             high_wind_chill =
               (if windchillHigh > high_wind_chill acc then windchillHigh else high_wind_chill acc),
             low_wind_chill =
               (if windchillLow < low_wind_chill acc then windchillLow else low_wind_chill acc),
             total_avg_windchill = total_avg_windchill acc + windchillAverage,
             high_precip_rate =
               (if precipRate > high_precip_rate acc then precipRate else high_precip_rate acc),
             precip_rate_avg = precip_rate_avg acc + precipAverage,
             observation_count = observation_count acc + 1 \<rparr>)))))))))))"

fun compile_loop :: "accumulators \<Rightarrow> observation list \<Rightarrow> error + accumulators" where
  "compile_loop acc [] = Inr acc"
| "compile_loop acc (obs # rest) =
     (case loop_body acc obs of Inl e \<Rightarrow> Inl e | Inr acc' \<Rightarrow> compile_loop acc' rest)"

text \<open>
  \<open>d["k"]\<close> on a top-level key, and the text argument of \<open>strptime\<close>, which must be a
  \<open>str\<close>.
\<close>

definition subscript :: "'a option \<Rightarrow> error + 'a" where
  "subscript v = (case v of None \<Rightarrow> Inl KeyError | Some x \<Rightarrow> Inr x)"

definition as_str :: "string option \<Rightarrow> error + string" where
  "as_str v = (case v of None \<Rightarrow> Inl TypeError | Some s \<Rightarrow> Inr s)"

definition compile_daily_data :: "observation list \<Rightarrow> error + DailyObservation" where
  "compile_daily_data observations =
     (if length observations \<noteq> 0 then
        bind_err (subscript (obsTimeLocal (last observations))) (\<lambda>t.
        bind_err (as_str t) (\<lambda>ts.
        bind_err (strptime_Y_m_d_H_M_S ts) (\<lambda>dt.
        let date_str = strftime_Y_m_d (fst dt) in
        bind_err (subscript (stationID (hd observations))) (\<lambda>station.
        bind_err (compile_loop initial_accumulators observations) (\<lambda>acc.
        bind_err (py_div (total_avg_temp acc) (observation_count acc)) (\<lambda>q_temp.
        bind_err (py_div (total_avg_windspeed acc) (observation_count acc)) (\<lambda>q_windspeed.
        bind_err (py_div (total_avg_windchill acc) (observation_count acc)) (\<lambda>q_windchill.
        bind_err (py_div (precip_rate_avg acc) (observation_count acc)) (\<lambda>q_precip.
          DailyObservation_init
            \<lparr> kw_station_id = station,
              kw_obs_time_local = Some date_str,
              kw_friendly_date = Some (strftime_friendly (fst dt)),
              kw_temp_high = Some (high_temp acc),
              kw_temp_low = Some (low_temp acc),
              kw_temp_avg = Some (round2 q_temp),
              kw_windspeed_high = Some (high_windspeed acc),
              kw_windspeed_low = Some (low_windspeed acc),
              kw_windspeed_avg = Some (round2 q_windspeed),
              kw_wind_chill_high = Some (high_wind_chill acc),
              kw_wind_chill_low = Some (low_wind_chill acc),
              kw_wind_chill_avg = Some (round2 q_windchill),
              kw_precip_rate = Some (high_precip_rate acc),
              kw_precip_avg = Some (round2 q_precip) \<rparr>)))))))))
      else DailyObservation_init no_kwargs)"

text \<open>
  The keys the loop reads, whether an observation carries a number under each of them, and
  the number under a key.
\<close>

definition read_keys :: "string list" where
  "read_keys = [''tempHigh'', ''tempLow'', ''tempAvg'', ''windspeedHigh'', ''windspeedLow'',
     ''windspeedAverage'', ''windchillHigh'', ''windchillLow'', ''windchillAverage'',
     ''precipRate'', ''precipAverage'']"

definition has_numbers :: "observation \<Rightarrow> bool" where
  "has_numbers obs = list_all (\<lambda>k. \<not> isl (imperial_number obs k)) read_keys"

definition number :: "string \<Rightarrow> observation \<Rightarrow> real" where
  "number k obs = projr (imperial_number obs k)"

text \<open>A key of \<open>imperial\<close> that is missing or holds \<open>None\<close>.\<close>

definition missing_or_null :: "observation \<Rightarrow> string \<Rightarrow> bool" where
  "missing_or_null obs k =
     (case imperial obs of
        None \<Rightarrow> True
      | Some d \<Rightarrow> (case d k of None \<Rightarrow> True | Some None \<Rightarrow> True | Some (Some x) \<Rightarrow> False))"

definition mean :: "real list \<Rightarrow> real" where
  "mean xs = sum_list xs / real (length xs)"

section \<open>The store\<close>

text \<open>
  A row of the table \<open>weather_data\<close>: its fourteen data columns, each nullable. The column
  \<open>id\<close> is assigned by SQLite and read by no statement of the program; the rows are kept
  in the order of their insertion. The database also records what was done to it: the
  connections opened and closed, the statements executed and the commits.
\<close>

record row =
  col_station_id :: "string option"
  col_obs_time_local :: "string option"
  col_temperature_high :: "real option"
  col_temperature_low :: "real option"
  col_temperature_average :: "real option"
  col_humidity :: "real option"
  col_wind_speed_high :: "real option"
  col_wind_speed_low :: "real option"
  col_wind_speed_average :: "real option"
  col_windchill_high :: "real option"
  col_windchill_low :: "real option"
  col_windchill_average :: "real option"
  col_precip_rate :: "real option"
  col_precip_total :: "real option"

datatype db_event =
    Connect
  | Execute_create_table
  | Execute_insert row
  | Execute_select string string
  | Commit
  | Close

record database =
  rows :: "row list"
  db_log :: "db_event list"

definition logged :: "database \<Rightarrow> db_event list \<Rightarrow> database" where
  "logged db evs = db \<lparr> db_log := db_log db @ evs \<rparr>"

subsection \<open>insert\_observations\<close>

text \<open>\<open>obs.get("imperial", {}).get(k, None)\<close> and \<open>obs.get(k, None)\<close>.\<close>

definition imperial_get :: "observation \<Rightarrow> string \<Rightarrow> real option" where
  "imperial_get obs k =
     (case imperial obs of None \<Rightarrow> None | Some d \<Rightarrow> (case d k of None \<Rightarrow> None | Some v \<Rightarrow> v))"

definition get_or_None :: "'a option option \<Rightarrow> 'a option" where
  "get_or_None v = (case v of None \<Rightarrow> None | Some x \<Rightarrow> x)"

text \<open>The parameter tuple of the INSERT statement; \<open>obs["stationID"]\<close> and
  \<open>obs["obsTimeLocal"]\<close> raise \<open>KeyError\<close> when the key is missing.\<close>

definition insert_parameters :: "observation \<Rightarrow> error + row" where
  "insert_parameters obs =
     bind_err (subscript (stationID obs)) (\<lambda>station.
     bind_err (subscript (obsTimeLocal obs)) (\<lambda>t.
       Inr \<lparr> col_station_id = station,
             col_obs_time_local = t,
             col_temperature_high = imperial_get obs ''tempHigh'',
             col_temperature_low = imperial_get obs ''tempLow'',
             col_temperature_average = imperial_get obs ''tempAvg'',
             col_humidity = get_or_None (humidityAvg obs),
             col_wind_speed_high = imperial_get obs ''windspeedHigh'',
             col_wind_speed_low = imperial_get obs ''windspeedLow'',
             col_wind_speed_average = imperial_get obs ''windspeedAvg'',
             col_windchill_high = imperial_get obs ''windchillHigh'',
             col_windchill_low = imperial_get obs ''windchillLow'',
             col_windchill_average = imperial_get obs ''windchillAvg'',
             col_precip_rate = imperial_get obs ''precipRate'',
             col_precip_total = imperial_get obs ''precipTotal'' \<rparr>))"

text \<open>
  The INSERT statement under the constraint \<open>obs_time_local TEXT UNIQUE\<close>: a row whose
  timestamp is already in the table is refused with \<open>IntegrityError\<close>; NULL collides
  with nothing.
\<close>

definition collides :: "row list \<Rightarrow> row \<Rightarrow> bool" where
  "collides table r =
     (case col_obs_time_local r of
        None \<Rightarrow> False
      | Some t \<Rightarrow> list_ex (\<lambda>r'. col_obs_time_local r' = Some t) table)"

definition execute_insert :: "database \<Rightarrow> row \<Rightarrow> (error + unit) \<times> database" where
  "execute_insert db r =
     (if collides (rows db) r then (Inl IntegrityError, logged db [Execute_insert r])
      else (Inr (), logged (db \<lparr> rows := rows db @ [r] \<rparr>) [Execute_insert r]))"

text \<open>
  The loop over the batch. Only \<open>IntegrityError\<close> is caught (a message is printed, the
  loop goes on); any other exception leaves the loop.
\<close>

fun insert_loop :: "database \<Rightarrow> observation list \<Rightarrow> (error + unit) \<times> database" where
  "insert_loop db [] = (Inr (), db)"
| "insert_loop db (obs # rest) =
     (case insert_parameters obs of
        Inl e \<Rightarrow> (Inl e, db)
      | Inr r \<Rightarrow>
          (case execute_insert db r of
             (Inl e, db') \<Rightarrow> if e = IntegrityError then insert_loop db' rest else (Inl e, db')
           | (Inr u, db') \<Rightarrow> insert_loop db' rest))"

text \<open>
  The whole call: connect, loop, commit, close. An exception that leaves the loop also
  leaves the function before the commit, and the rows written on the connection are
  never persisted.
\<close>

definition insert_observations :: "database \<Rightarrow> observation list \<Rightarrow> (error + unit) \<times> database" where
  "insert_observations db observations =
     (case insert_loop (logged db [Connect]) observations of
        (Inl e, db') \<Rightarrow> (Inl e, db' \<lparr> rows := rows db \<rparr>)
      | (Inr u, db') \<Rightarrow> (Inr (), logged db' [Commit, Close]))"

subsection \<open>query\_by\_date\<close>

text \<open>The dictionary built from a selected row.\<close>

definition row_to_observation :: "row \<Rightarrow> observation" where
  "row_to_observation r =
     \<lparr> stationID = Some (col_station_id r),
       obsTimeLocal = Some (col_obs_time_local r),
       humidityAvg = None,
       imperial = Some (map_of
         [(''tempHigh'', col_temperature_high r),
          (''tempLow'', col_temperature_low r),
          (''tempAvg'', col_temperature_average r),
          (''humidity'', col_humidity r),
          (''windspeedHigh'', col_wind_speed_high r),
          (''windspeedLow'', col_wind_speed_low r),
          (''windspeedAverage'', col_wind_speed_average r),
          (''windchillHigh'', col_windchill_high r),
          (''windchillLow'', col_windchill_low r),
          (''windchillAverage'', col_windchill_average r),
          (''precipRate'', col_precip_rate r),
          (''precipAverage'', col_precip_total r)]) \<rparr>"

text \<open>
  \<open>WHERE obs_time_local >= ? AND obs_time_local < ? ORDER BY obs_time_local ASC\<close>: the
  column is TEXT, compared byte by byte; a comparison with NULL is not true.
\<close>

definition in_range :: "string \<Rightarrow> string \<Rightarrow> row \<Rightarrow> bool" where
  "in_range start_ts end_ts r =
     (case col_obs_time_local r of None \<Rightarrow> False | Some t \<Rightarrow> start_ts \<le> t \<and> t < end_ts)"

definition execute_select :: "database \<Rightarrow> string \<Rightarrow> string \<Rightarrow> row list \<times> database" where
  "execute_select db start_ts end_ts =
     (sort_key col_obs_time_local (filter (in_range start_ts end_ts) (rows db)),
      logged db [Execute_select start_ts end_ts])"

definition query_by_date :: "database \<Rightarrow> string \<Rightarrow> (error + observation list) \<times> database" where
  "query_by_date db date_str =
     (let db1 = logged db [Connect] in
      case strptime_Y_m_d date_str of
        Inl e \<Rightarrow> (Inl e, db1)
      | Inr dt \<Rightarrow>
          (let start_ts = strftime_midnight dt in
           case add_one_day dt of
             Inl e \<Rightarrow> (Inl e, db1)
           | Inr next_day \<Rightarrow>
               (let end_ts = strftime_midnight next_day;
                    (selected, db2) = execute_select db1 start_ts end_ts
                in (Inr (map row_to_observation selected), logged db2 [Close]))))"

section \<open>The historical backfill\<close>

text \<open>
  The configuration read at start-up, and a request as \<open>make_api_call\<close> receives it: the
  URL and the parameter dictionary, in the order it is written.
\<close>

record config =
  base_url :: string
  wu_api_key :: string
  wu_station_id :: string
  earliest_observation :: string

record request =
  url :: string
  params :: "(string \<times> string) list"

definition hourly_request :: "config \<Rightarrow> date \<Rightarrow> request" where
  "hourly_request cfg d =
     \<lparr> url = base_url cfg @ ''/history/hourly'',
       params = [(''apiKey'', wu_api_key cfg), (''stationId'', wu_station_id cfg),
                 (''format'', ''json''), (''units'', ''e''), (''date'', strftime_Ymd d)] \<rparr>"

text \<open>The value of the parameter \<open>date\<close> of a request.\<close>

definition date_parameter :: "request \<Rightarrow> string option" where
  "date_parameter r = map_of (params r) ''date''"

text \<open>
  \<open>make_api_call\<close> talks to the network, so the backfill takes it as a parameter: a
  function from a request and the state of the outside world \<open>'w\<close> to a result and the
  new state. The loop stops at the first exception, of a call or of the date step.
\<close>

type_synonym 'w api_call = "request \<Rightarrow> 'w \<Rightarrow> (error + observation list) \<times> 'w"

function historical_loop ::
  "config \<Rightarrow> 'w api_call \<Rightarrow> date \<Rightarrow> date \<Rightarrow> observation list \<Rightarrow> 'w
     \<Rightarrow> (error + observation list) \<times> 'w" where
  "historical_loop cfg make_api_call start_date end_date observations w =
     (if start_date \<le> end_date then
        (case make_api_call (hourly_request cfg start_date) w of
           (Inl e, w') \<Rightarrow> (Inl e, w')
         | (Inr data, w') \<Rightarrow>
             (case add_one_day start_date of
                Inl e \<Rightarrow> (Inl e, w')
              | Inr next_day \<Rightarrow>
                  historical_loop cfg make_api_call next_day end_date (observations @ data) w'))
      else (Inr observations, w))"
  by pat_completeness auto
termination
  by (relation "measures [\<lambda>(cfg, c, (y, m, d), e, obs, w). 9999 - y,
                          \<lambda>(cfg, c, (y, m, d), e, obs, w). 12 - m,
                          \<lambda>(cfg, c, (y, m, d), e, obs, w). 31 - d]")
     (auto simp: add_one_day_def days_in_month_def split: if_splits prod.splits)

definition fetch_historical_hourly_data ::
  "config \<Rightarrow> 'w api_call \<Rightarrow> string \<Rightarrow> string option \<Rightarrow> 'w \<Rightarrow> (error + observation list) \<times> 'w" where
  "fetch_historical_hourly_data cfg make_api_call start_date end_date w =
     (case strptime_Y_m_d start_date of
        Inl e \<Rightarrow> (Inl e, w)
      | Inr start \<Rightarrow>
          (case end_date of
             None \<Rightarrow> historical_loop cfg make_api_call start start [] w
           | Some end_str \<Rightarrow>
               (case strptime_Y_m_d end_str of
                  Inl e \<Rightarrow> (Inl e, w)
                | Inr end \<Rightarrow> historical_loop cfg make_api_call start end [] w)))"

text \<open>
  \<open>WeatherDB.init_db\<close> creates the file and the table when they do not exist.
  \<open>ClimeCapsule.init_db\<close>: when no database file exists (\<open>None\<close>), create it, fetch the
  history from the earliest observation to today, and insert what was fetched.
\<close>

definition WeatherDB_init_db :: "database option \<Rightarrow> database" where
  "WeatherDB_init_db file =
     (case file of
        None \<Rightarrow> \<lparr> rows = [], db_log = [Connect, Execute_create_table, Commit, Close] \<rparr>
      | Some db \<Rightarrow> logged db [Connect, Execute_create_table, Commit, Close])"

definition init_db ::
  "config \<Rightarrow> 'w api_call \<Rightarrow> date \<Rightarrow> database option \<Rightarrow> 'w
     \<Rightarrow> (error + unit) \<times> database option \<times> 'w" where
  "init_db cfg make_api_call today file w =
     (case file of
        None \<Rightarrow>
          (let db = WeatherDB_init_db file;
               start = earliest_observation cfg;
               end = strftime_Y_m_d today
           in case fetch_historical_hourly_data cfg make_api_call start (Some end) w of
                (Inl e, w') \<Rightarrow> (Inl e, Some db, w')
              | (Inr observations, w') \<Rightarrow>
                  (case insert_observations db observations of
                     (r, db') \<Rightarrow> (r, Some db', w')))
      | Some db \<Rightarrow> (Inr (), Some db, w))"

text \<open>
  To observe the calls, the outside world is the list of the requests made so far, and
  the \<open>n\<close>-th call (counted from 0) with request \<open>r\<close> is answered by \<open>api n r\<close>.
\<close>

definition recorded :: "(nat \<Rightarrow> request \<Rightarrow> error + observation list) \<Rightarrow> request list api_call" where
  "recorded api r calls = (api (length calls) r, calls @ [r])"

text \<open>The days the loop visits; the last one is visited also when the step after it
  overflows.\<close>

function days_walked :: "date \<Rightarrow> date \<Rightarrow> date list" where
  "days_walked start_date end_date =
     (if start_date \<le> end_date then
        (case add_one_day start_date of
           Inl e \<Rightarrow> [start_date]
         | Inr next_day \<Rightarrow> start_date # days_walked next_day end_date)
      else [])"
  by pat_completeness auto
termination
  by (relation "measures [\<lambda>((y, m, d), e). 9999 - y, \<lambda>((y, m, d), e). 12 - m,
                          \<lambda>((y, m, d), e). 31 - d]")
     (auto simp: add_one_day_def days_in_month_def split: if_splits prod.splits)

definition answers :: "(nat \<Rightarrow> request \<Rightarrow> error + observation list) \<Rightarrow> nat \<Rightarrow> request list
    \<Rightarrow> (error + observation list) list" where
  "answers api n reqs = map (\<lambda>i. api (n + i) (reqs ! i)) [0..<length reqs]"

section \<open>Timestamps of stored rows\<close>

text \<open>
  The provider writes \<open>obsTimeLocal\<close> as \<open>YYYY-MM-DD HH:MM:SS\<close>. A text is a canonical
  timestamp when it parses and is written exactly this way; the timestamp of a row is
  the datetime its text parses to.
\<close>

definition strftime_Y_m_d_H_M_S :: "datetime \<Rightarrow> string" where
  "strftime_Y_m_d_H_M_S dt = (case dt of (d, H, M, S) \<Rightarrow>
     strftime_Y_m_d d @ '' '' @ pad2 H @ '':'' @ pad2 M @ '':'' @ pad2 S)"

definition canonical_timestamp :: "string \<Rightarrow> bool" where
  "canonical_timestamp t =
     (case strptime_Y_m_d_H_M_S t of Inl e \<Rightarrow> False | Inr dt \<Rightarrow> strftime_Y_m_d_H_M_S dt = t)"

definition has_timestamp :: "row \<Rightarrow> bool" where
  "has_timestamp r =
     (case col_obs_time_local r of None \<Rightarrow> False | Some t \<Rightarrow> canonical_timestamp t)"

definition timestamp_of :: "row \<Rightarrow> datetime" where
  "timestamp_of r = projr (strptime_Y_m_d_H_M_S (the (col_obs_time_local r)))"

definition midnight :: "date \<Rightarrow> datetime" where
  "midnight d = (d, 0, 0, 0)"

section \<open>make\_api\_call\<close>

text \<open>
  The body of \<open>make_api_call\<close> sends one GET request and decodes the answer. The provider
  is a parameter: \<open>respond n r\<close> is what the \<open>n\<close>-th request sent (counted from 0)
  comes back with, \<open>latency n\<close> the seconds it takes, and \<open>backoff_wait k\<close> the seconds
  the backoff library waits before its \<open>k\<close>-th retry.
\<close>

datatype body = Not_json | Json "observation list option"

datatype http_outcome = No_response | Response nat body

record provider =
  respond :: "nat \<Rightarrow> request \<Rightarrow> http_outcome"
  latency :: "nat \<Rightarrow> real"
  backoff_wait :: "nat \<Rightarrow> real"

text \<open>
  The state the decorated function works on: the clock, the counter and the window start
  of the \<open>limits\<close> decorator, the requests sent and the sleeps taken.
\<close>

record net =
  clock :: real
  num_calls :: nat
  last_reset :: real
  requests_sent :: "request list"
  sleeps :: "real list"

definition sleep :: "real \<Rightarrow> net \<Rightarrow> net" where
  "sleep seconds w = w \<lparr> clock := clock w + seconds, sleeps := sleeps w @ [seconds] \<rparr>"

text \<open>
  \<open>requests.get\<close>, \<open>raise_for_status\<close> (an exception for the status codes 400 to 599),
  \<open>resp.json()\<close> and \<open>data.get("observations", [])\<close>.
\<close>

definition response_result :: "http_outcome \<Rightarrow> error + observation list" where
  "response_result outcome =
     (case outcome of
        No_response \<Rightarrow> Inl ConnectionError
      | Response status b \<Rightarrow>
          if 400 \<le> status \<and> status < 600 then Inl (HTTPError status)
          else (case b of
                  Not_json \<Rightarrow> Inl JSONDecodeError
                | Json None \<Rightarrow> Inr []
                | Json (Some observations) \<Rightarrow> Inr observations))"

definition api_body :: "provider \<Rightarrow> request \<Rightarrow> net \<Rightarrow> (error + observation list) \<times> net" where
  "api_body p r w =
     (let n = length (requests_sent w);
          w' = w \<lparr> clock := clock w + latency p n, requests_sent := requests_sent w @ [r] \<rparr>
      in (response_result (respond p n r), w'))"

text \<open>
  Modelled from the documented behaviour of the library \<open>ratelimit\<close>, which is not part of
  the repository. \<open>@limits(calls=30, period=60)\<close>: the counter is reset when the window of
  60 seconds has passed; the counter is incremented; beyond 30 the call is refused with
  \<open>RateLimitException\<close>, which carries the time left in the window, and the function is
  not run.
\<close>

definition limits :: "provider \<Rightarrow> request \<Rightarrow> net \<Rightarrow> (error + observation list) \<times> net" where
  "limits p r w =
     (let period_remaining = 60 - (clock w - last_reset w);
          w1 = (if period_remaining \<le> 0 then w \<lparr> num_calls := 0, last_reset := clock w \<rparr> else w);
          w2 = w1 \<lparr> num_calls := num_calls w1 + 1 \<rparr>
      in if num_calls w2 > 30 then (Inl (RateLimitException period_remaining), w2)
         else api_body p r w2)"

text \<open>
  Modelled from the documented behaviour of the library \<open>backoff\<close>, which is not part of
  the repository. \<open>@on_exception(expo, RateLimitException, max_tries=3)\<close>: a
  \<open>RateLimitException\<close> is answered by a wait and another try, until three tries have
  been made; the third one's exception, and any other exception at once, leaves the
  function. The first argument counts the tries that may still follow this one.
\<close>

fun on_exception :: "nat \<Rightarrow> provider \<Rightarrow> request \<Rightarrow> net \<Rightarrow> (error + observation list) \<times> net" where
  "on_exception 0 p r w = limits p r w"
| "on_exception (Suc retries) p r w =
     (case limits p r w of
        (Inl e, w') \<Rightarrow>
          (case e of
             RateLimitException remaining \<Rightarrow>
               on_exception retries p r (sleep (backoff_wait p (length (sleeps w'))) w')
           | _ \<Rightarrow> (Inl e, w'))
      | (Inr data, w') \<Rightarrow> (Inr data, w'))"

text \<open>Whether a result is the \<open>RateLimitException\<close> of the limiter.\<close>

definition is_rate_limit :: "error + observation list \<Rightarrow> bool" where
  "is_rate_limit res = (case res of Inl (RateLimitException remaining) \<Rightarrow> True | _ \<Rightarrow> False)"

text \<open>
  Modelled from the documented behaviour of the library \<open>ratelimit\<close>.
  \<open>@sleep_and_retry\<close>: a \<open>RateLimitException\<close> that reaches it is answered by a sleep
  for the time left in the window and a new call, for ever; any other exception passes.
  The loop ends because after that sleep the window has passed.
\<close>

function sleep_and_retry :: "provider \<Rightarrow> request \<Rightarrow> net \<Rightarrow> (error + observation list) \<times> net" where
  "sleep_and_retry p r w =
     (case on_exception 2 p r w of
        (Inl e, w') \<Rightarrow>
          (case e of
             RateLimitException remaining \<Rightarrow> sleep_and_retry p r (sleep remaining w')
           | _ \<Rightarrow> (Inl e, w'))
      | (Inr data, w') \<Rightarrow> (Inr data, w'))"
  by pat_completeness auto
termination
proof (relation "measure (\<lambda>(p, r, w). if 60 - (clock w - last_reset w) \<le> 0 then 0 else 1)")
  show "wf (measure (\<lambda>(p, r, w). if 60 - (clock w - last_reset w) \<le> 0 then 0 else 1))"
    by simp
next
  fix p :: provider and r :: request and w w' :: net and x e remaining
  assume a: "(x, w') = on_exception 2 p r w" "x = Inl e" "e = RateLimitException remaining"
  have body: "\<And>w0 rem w1. api_body p r w0 \<noteq> (Inl (RateLimitException rem), w1)"
    by (auto simp: api_body_def response_result_def Let_def
        split: http_outcome.splits body.splits option.splits if_splits)
  have lim: "\<And>w0 rem w1. limits p r w0 = (Inl (RateLimitException rem), w1) \<Longrightarrow>
      0 < 60 - (clock w0 - last_reset w0) \<and> rem = 60 - (clock w1 - last_reset w1)"
    using body by (auto simp: limits_def Let_def split: if_splits)
  have onx: "\<And>w0 rem w1. on_exception n p r w0 = (Inl (RateLimitException rem), w1) \<Longrightarrow>
      0 < 60 - (clock w0 - last_reset w0) \<and> rem = 60 - (clock w1 - last_reset w1)" for n
  proof (induction n)
    case 0
    then show ?case using lim by simp
  next
    case (Suc n)
    show ?case
    proof (cases "limits p r w0")
      case (Pair res w2)
      show ?thesis
      proof (cases res)
        case (Inl e2)
        show ?thesis
        proof (cases "\<exists>rem2. e2 = RateLimitException rem2")
          case True
          then obtain rem2 where e2: "e2 = RateLimitException rem2" by blast
          from lim [of w0 rem2 w2] Pair Inl e2
          have open0: "0 < 60 - (clock w0 - last_reset w0)" by simp
          from Suc.prems Pair Inl e2
          have "on_exception n p r (sleep (backoff_wait p (length (sleeps w2))) w2)
                  = (Inl (RateLimitException rem), w1)" by simp
          from Suc.IH [OF this] open0 show ?thesis by simp
        next
          case False
          with Suc.prems Pair Inl have "limits p r w0 = (Inl (RateLimitException rem), w1)"
            by (cases e2) auto
          then show ?thesis by (rule lim)
        qed
      next
        case (Inr d)
        with Suc.prems Pair show ?thesis by simp
      qed
    qed
  qed
  from a have "on_exception 2 p r w = (Inl (RateLimitException remaining), w')" by simp
  from onx [OF this]
  show "((p, r, sleep remaining w'), p, r, w)
          \<in> measure (\<lambda>(p, r, w). if 60 - (clock w - last_reset w) \<le> 0 then 0 else 1)"
    by (simp add: sleep_def)
qed

definition make_api_call :: "provider \<Rightarrow> request \<Rightarrow> net \<Rightarrow> (error + observation list) \<times> net" where
  "make_api_call p r w = sleep_and_retry p r w"

section \<open>Batches and keys\<close>

text \<open>
  An observation can be inserted when it has the keys \<open>stationID\<close> and \<open>obsTimeLocal\<close>
  and its timestamp is not \<open>None\<close>; \<open>row_of\<close> is the row written for it. Following the
  words of the specification, \<open>insert_or_skip\<close> attempts a unique-keyed insert for each
  row and skips the single row that collides; \<open>same_key\<close> says that a stored row has
  the station and the timestamp of an observation.
\<close>

definition insertable :: "observation \<Rightarrow> bool" where
  "insertable obs =
     (stationID obs \<noteq> None \<and> (case obsTimeLocal obs of Some (Some t) \<Rightarrow> True | _ \<Rightarrow> False))"

definition row_of :: "observation \<Rightarrow> row" where
  "row_of obs = projr (insert_parameters obs)"

fun insert_or_skip :: "row list \<Rightarrow> row list \<Rightarrow> row list" where
  "insert_or_skip table [] = table"
| "insert_or_skip table (r # rs) = insert_or_skip (if collides table r then table else table @ [r]) rs"

text \<open>
  The key of the provider's dictionary whose value \<open>query_by_date\<close> hands back under the
  key \<open>k\<close> that \<open>compile_daily_data\<close> reads.
\<close>

definition provider_key :: "string \<Rightarrow> string" where
  "provider_key k =
     (if k = ''windspeedAverage'' then ''windspeedAvg''
      else if k = ''windchillAverage'' then ''windchillAvg''
      else if k = ''precipAverage'' then ''precipTotal''
      else k)"

definition same_key :: "observation \<Rightarrow> row \<Rightarrow> bool" where
  "same_key obs r =
     (stationID obs = Some (col_station_id r) \<and> obsTimeLocal obs = Some (col_obs_time_local r))"

section \<open>Example data\<close>

text \<open>
  Rows of one station, built from a timestamp and the twelve numeric columns in the
  order of the table, and some days as \<open>query_by_date\<close> returns them.
\<close>

definition example_row :: "string \<Rightarrow> real option list \<Rightarrow> row" where
  "example_row t v =
     \<lparr> col_station_id = Some ''KCOBOULD1'', col_obs_time_local = Some t,
       col_temperature_high = v ! 0, col_temperature_low = v ! 1, col_temperature_average = v ! 2,
       col_humidity = v ! 3,
       col_wind_speed_high = v ! 4, col_wind_speed_low = v ! 5, col_wind_speed_average = v ! 6,
       col_windchill_high = v ! 7, col_windchill_low = v ! 8, col_windchill_average = v ! 9,
       col_precip_rate = v ! 10, col_precip_total = v ! 11 \<rparr>"

definition example_rows :: "row list" where
  "example_rows =
     [example_row ''2024-03-04 01:00:00''
        [Some 70, Some 60, Some 65, Some 40, Some 8, Some 2, Some 5, Some 69, Some 59, Some 64, Some 0, Some 0],
      example_row ''2024-03-04 02:00:00''
        [Some 75, Some 55, Some 66, Some 41, Some 9, Some 1, Some 4, Some 74, Some 54, Some 65, Some 0.1, Some 0.02],
      example_row ''2024-03-04 03:00:00''
        [Some 68, Some 58, Some 63, Some 42, Some 7, Some 3, Some 6, Some 67, Some 57, Some 62, Some 0.3, Some 0.05]]"

definition example_day :: "observation list" where
  "example_day = map row_to_observation example_rows"

definition sentinel_rows :: "row list" where
  "sentinel_rows =
     [example_row ''2024-01-15 01:00:00''
        [Some (-5), Some 160, Some 20, Some 40, Some (-2), Some 151, Some 5, Some (-9), Some 155, Some 3, Some (-1), Some 0],
      example_row ''2024-01-15 02:00:00''
        [Some (-3), Some 170, Some 30, Some 41, Some (-1), Some 152, Some 4, Some (-7), Some 156, Some 4, Some (-2), Some 0.5]]"

definition sentinel_day :: "observation list" where
  "sentinel_day = map row_to_observation sentinel_rows"

definition gappy_rows :: "row list" where
  "gappy_rows =
     [example_row ''2024-03-05 01:00:00''
        [Some 70, Some 60, Some 65, Some 40, Some 8, Some 2, Some 5, Some 69, Some 59, Some 64, Some 0, Some 0],
      example_row ''2024-03-05 02:00:00''
        [None, Some 55, Some 66, Some 41, Some 9, Some 1, Some 4, Some 74, Some 54, Some 65, Some 0.1, Some 0.02]]"

definition gappy_day :: "observation list" where
  "gappy_day = map row_to_observation gappy_rows"

definition reading :: "string \<Rightarrow> real \<Rightarrow> row" where
  "reading t temp = example_row t
     [Some temp, Some (temp - 10), Some (temp - 5), Some 40, Some 8, Some 2, Some 5,
      Some temp, Some (temp - 10), Some (temp - 5), Some 0, Some 0]"

definition mixed_db :: database where
  "mixed_db =
     \<lparr> rows = [reading ''2024-03-05 00:00:00'' 50, reading ''2024-03-04 03:00:00'' 61,
               reading ''2024-03-03 23:59:59'' 48, reading ''2024-03-04 00:00:00'' 55],
       db_log = [] \<rparr>"

definition hourly_observation :: "string \<Rightarrow> real \<Rightarrow> observation" where
  "hourly_observation t temp =
     \<lparr> stationID = Some (Some ''KCOBOULD1''),
       obsTimeLocal = Some (Some t),
       humidityAvg = Some (Some 40),
       imperial = Some (map_of
         [(''tempHigh'', Some temp), (''tempLow'', Some (temp - 10)), (''tempAvg'', Some (temp - 5)),
          (''windspeedHigh'', Some 8), (''windspeedLow'', Some 2), (''windspeedAvg'', Some 5),
          (''windchillHigh'', Some temp), (''windchillLow'', Some (temp - 10)),
          (''windchillAvg'', Some (temp - 5)), (''precipRate'', Some 0), (''precipTotal'', Some 0)]) \<rparr>"

definition gappy_observation :: observation where
  "gappy_observation =
     \<lparr> stationID = Some (Some ''KCOBOULD1''),
       obsTimeLocal = Some (Some ''2024-03-05 02:00:00''),
       humidityAvg = Some (Some 41),
       imperial = Some (map_of
         [(''tempLow'', Some 55), (''tempAvg'', Some 66),
          (''windspeedHigh'', Some 9), (''windspeedLow'', Some 1), (''windspeedAvg'', Some 4),
          (''windchillHigh'', Some 74), (''windchillLow'', Some 54), (''windchillAvg'', Some 65),
          (''precipRate'', Some 0.1), (''precipTotal'', Some 0.02)]) \<rparr>"

definition stored_db :: database where
  "stored_db = \<lparr> rows = example_rows, db_log = [] \<rparr>"

definition example_batch :: "observation list" where
  "example_batch =
     [hourly_observation ''2024-03-04 03:00:00'' 99,
      hourly_observation ''2024-03-04 04:00:00'' 71,
      hourly_observation ''2024-03-04 04:00:00'' 72]"

definition quiet_api :: "nat \<Rightarrow> request \<Rightarrow> error + observation list" where
  "quiet_api n r = Inr []"

definition example_config :: config where
  "example_config = \<lparr> base_url = ''https://api.weather.com/v2/pws'', wu_api_key = ''key'',
     wu_station_id = ''KCOBOULD1'', earliest_observation = ''2024-01-01'' \<rparr>"

definition last_day_config :: config where
  "last_day_config = example_config \<lparr> earliest_observation := ''9999-12-31'' \<rparr>"

definition example_api :: "nat \<Rightarrow> request \<Rightarrow> error + observation list" where
  "example_api n r =
     Inr [hourly_observation
            ([''2024-01-01 12:00:00'', ''2024-01-02 12:00:00'', ''2024-01-03 12:00:00''] ! n)
            (60 + real n)]"

definition throttling_provider :: provider where
  "throttling_provider =
     \<lparr> respond = (\<lambda>n r. Response 429 Not_json), latency = (\<lambda>n. 1 / 2), backoff_wait = (\<lambda>k. 1) \<rparr>"

definition fresh_net :: net where
  "fresh_net = \<lparr> clock = 0, num_calls = 0, last_reset = 0, requests_sent = [], sleeps = [] \<rparr>"

definition current_request :: request where
  "current_request =
     \<lparr> url = ''https://api.weather.com/v2/pws/observations/current'',
       params = [(''apiKey'', ''key''), (''stationId'', ''KCOBOULD1''), (''format'', ''json''),
                 (''units'', ''e'')] \<rparr>"

definition healthy_provider :: provider where
  "healthy_provider =
     \<lparr> respond = (\<lambda>n r. Response 200 (Json (Some []))), latency = (\<lambda>n. 1 / 2),
       backoff_wait = (\<lambda>k. 2 ^ k) \<rparr>"

definition busy_net :: net where
  "busy_net = \<lparr> clock = 10, num_calls = 30, last_reset = 0, requests_sent = [], sleeps = [] \<rparr>"

section \<open>Properties of the daily summary\<close>

text \<open>
  C1. The claim is that \<open>compile_daily_data([])\<close> returns a summary without station id
  and with zero fields and never raises. The code calls \<open>DailyObservation()\<close>, whose
  fourteen fields are all required: the call raises \<open>ValidationError\<close>.
\<close>

theorem compile_daily_data_empty: "compile_daily_data [] = Inl ValidationError"
  by (simp add: compile_daily_data_def DailyObservation_init_def no_kwargs_def required_def bind_err_def)

lemma imperial_number_Inr: "\<not> isl (imperial_number obs k) \<Longrightarrow> imperial_number obs k = Inr (number k obs)"
  by (simp add: number_def)

lemma loop_body_Inr:
  assumes "has_numbers obs"
  shows "loop_body acc obs = Inr
    \<lparr> high_temp = max (high_temp acc) (number ''tempHigh'' obs),
      low_temp = min (low_temp acc) (number ''tempLow'' obs),
      total_avg_temp = total_avg_temp acc + number ''tempAvg'' obs,
      high_windspeed = max (high_windspeed acc) (number ''windspeedHigh'' obs),
      low_windspeed = min (low_windspeed acc) (number ''windspeedLow'' obs),
      total_avg_windspeed = total_avg_windspeed acc + number ''windspeedAverage'' obs,
      high_wind_chill = max (high_wind_chill acc) (number ''windchillHigh'' obs),
      low_wind_chill = min (low_wind_chill acc) (number ''windchillLow'' obs),
      total_avg_windchill = total_avg_windchill acc + number ''windchillAverage'' obs,
      high_precip_rate = max (high_precip_rate acc) (number ''precipRate'' obs),
      precip_rate_avg = precip_rate_avg acc + number ''precipAverage'' obs,
      observation_count = observation_count acc + 1 \<rparr>"
proof -
  have k: "\<And>k. k \<in> set read_keys \<Longrightarrow> imperial_number obs k = Inr (number k obs)"
    using assms by (simp add: has_numbers_def list_all_iff imperial_number_Inr)
  have "imperial_number obs ''tempHigh'' = Inr (number ''tempHigh'' obs)"
       "imperial_number obs ''tempLow'' = Inr (number ''tempLow'' obs)"
       "imperial_number obs ''tempAvg'' = Inr (number ''tempAvg'' obs)"
       "imperial_number obs ''windspeedHigh'' = Inr (number ''windspeedHigh'' obs)"
       "imperial_number obs ''windspeedLow'' = Inr (number ''windspeedLow'' obs)"
       "imperial_number obs ''windspeedAverage'' = Inr (number ''windspeedAverage'' obs)"
       "imperial_number obs ''windchillHigh'' = Inr (number ''windchillHigh'' obs)"
       "imperial_number obs ''windchillLow'' = Inr (number ''windchillLow'' obs)"
       "imperial_number obs ''windchillAverage'' = Inr (number ''windchillAverage'' obs)"
       "imperial_number obs ''precipRate'' = Inr (number ''precipRate'' obs)"
       "imperial_number obs ''precipAverage'' = Inr (number ''precipAverage'' obs)"
    by (rule k, simp add: read_keys_def)+
  then show ?thesis
    by (simp add: loop_body_def bind_err_def max_def min_def)
qed

lemma Max_insert_max:
  fixes a :: real
  assumes "finite S"
  shows "Max (insert (max a x) S) = Max (insert a (insert x S))"
proof (cases "S = {}")
  case True
  then show ?thesis by (simp add: max.commute)
next
  case False
  with assms show ?thesis by (simp add: max.assoc max.commute max.left_commute)
qed

lemma Min_insert_min:
  fixes a :: real
  assumes "finite S"
  shows "Min (insert (min a x) S) = Min (insert a (insert x S))"
proof (cases "S = {}")
  case True
  then show ?thesis by (simp add: min.commute)
next
  case False
  with assms show ?thesis by (simp add: min.assoc min.commute min.left_commute)
qed

lemma compile_loop_Inr:
  "list_all has_numbers obs \<Longrightarrow> compile_loop acc obs = Inr
    \<lparr> high_temp = Max (insert (high_temp acc) (number ''tempHigh'' ` set obs)),
      low_temp = Min (insert (low_temp acc) (number ''tempLow'' ` set obs)),
      total_avg_temp = total_avg_temp acc + sum_list (map (number ''tempAvg'') obs),
      high_windspeed = Max (insert (high_windspeed acc) (number ''windspeedHigh'' ` set obs)),
      low_windspeed = Min (insert (low_windspeed acc) (number ''windspeedLow'' ` set obs)),
      total_avg_windspeed = total_avg_windspeed acc + sum_list (map (number ''windspeedAverage'') obs),
      high_wind_chill = Max (insert (high_wind_chill acc) (number ''windchillHigh'' ` set obs)),
      low_wind_chill = Min (insert (low_wind_chill acc) (number ''windchillLow'' ` set obs)),
      total_avg_windchill = total_avg_windchill acc + sum_list (map (number ''windchillAverage'') obs),
      high_precip_rate = Max (insert (high_precip_rate acc) (number ''precipRate'' ` set obs)),
      precip_rate_avg = precip_rate_avg acc + sum_list (map (number ''precipAverage'') obs),
      observation_count = observation_count acc + length obs \<rparr>"
proof (induction obs arbitrary: acc)
  case Nil
  then show ?case by simp
next
  case (Cons o1 obs)
  then have h: "has_numbers o1" and t: "list_all has_numbers obs" by simp_all
  show ?case
    by (simp add: loop_body_Inr [OF h] Cons.IH [OF t] Max_insert_max Min_insert_min add.assoc)
qed

lemma compile_daily_data_Inr:
  assumes ne: "observations \<noteq> []"
    and nums: "list_all has_numbers observations"
    and ts: "obsTimeLocal (last observations) = Some (Some ts)"
    and dt: "strptime_Y_m_d_H_M_S ts = Inr dt"
    and st: "stationID (hd observations) = Some (Some station)"
  shows "compile_daily_data observations = Inr
    \<lparr> station_id = station,
      obs_time_local = strftime_Y_m_d (fst dt),
      friendly_date = strftime_friendly (fst dt),
      temp_high = Max (insert 0 (number ''tempHigh'' ` set observations)),
      temp_low = Min (insert 150 (number ''tempLow'' ` set observations)),
      temp_avg = round2 (mean (map (number ''tempAvg'') observations)),
      windspeed_high = Max (insert 0 (number ''windspeedHigh'' ` set observations)),
      windspeed_low = Min (insert 150 (number ''windspeedLow'' ` set observations)),
      windspeed_avg = round2 (mean (map (number ''windspeedAverage'') observations)),
      wind_chill_high = Max (insert 0 (number ''windchillHigh'' ` set observations)),
      wind_chill_low = Min (insert 150 (number ''windchillLow'' ` set observations)),
      wind_chill_avg = round2 (mean (map (number ''windchillAverage'') observations)),
      precip_rate = Max (insert 0 (number ''precipRate'' ` set observations)),
      precip_avg = round2 (mean (map (number ''precipAverage'') observations)) \<rparr>"
proof -
  from ne have len: "length observations \<noteq> 0" by simp
  show ?thesis
    unfolding compile_daily_data_def
    by (simp add: len ts dt st compile_loop_Inr [OF nums] initial_accumulators_def
        subscript_def as_str_def bind_err_def py_div_def DailyObservation_init_def required_def
        mean_def Let_def ne)
qed


lemma example_day_numbers: "list_all has_numbers example_day"
  by (simp add: example_day_def example_rows_def example_row_def row_to_observation_def has_numbers_def
      read_keys_def imperial_number_def)

lemma example_day_temp:
  "map (number ''tempHigh'') example_day = [70, 75, 68]"
  "map (number ''tempLow'') example_day = [60, 55, 58]"
  "map (number ''tempAvg'') example_day = [65, 66, 63]"
  by (simp_all add: example_day_def example_rows_def example_row_def row_to_observation_def number_def
      imperial_number_def)

lemma example_day_header:
  "example_day \<noteq> []"
  "obsTimeLocal (last example_day) = Some (Some ''2024-03-04 03:00:00'')"
  "stationID (hd example_day) = Some (Some ''KCOBOULD1'')"
  by (simp_all add: example_day_def example_rows_def example_row_def row_to_observation_def)

lemma example_time: "strptime_Y_m_d_H_M_S ''2024-03-04 03:00:00'' = Inr ((2024, 3, 4), 3, 0, 0)"
  by code_simp


lemma Max_insert_0_negative:
  fixes S :: "real set"
  assumes "finite S" "S \<noteq> {}" "\<forall>x\<in>S. x < 0"
  shows "Max (insert 0 S) = 0 \<and> Max S < 0"
  using assms by (simp add: max_def less_le_not_le)

lemma Min_insert_150_above:
  fixes S :: "real set"
  assumes "finite S" "S \<noteq> {}" "\<forall>x\<in>S. 150 < x"
  shows "Min (insert 150 S) = 150 \<and> 150 < Min S"
  using assms by (simp add: min_def less_le_not_le)

text \<open>
  C4, as amended. For a non-empty list of observations that all carry the eleven numbers,
  whose last timestamp parses and whose first station id is a string, the summary is
  returned and, for temperature, wind speed and wind chill, its high is the maximum of 0
  and the per-observation highs, its low the minimum of 150 and the per-observation lows,
  and its avg the arithmetic mean of the per-observation avgs rounded to two decimals.
\<close>

theorem compile_daily_data_high_low_avg:
  assumes "observations \<noteq> []"
    and "list_all has_numbers observations"
    and "obsTimeLocal (last observations) = Some (Some ts)"
    and "strptime_Y_m_d_H_M_S ts = Inr dt"
    and "stationID (hd observations) = Some (Some station)"
  shows "\<exists>s. compile_daily_data observations = Inr s
    \<and> temp_high s = Max (insert 0 (number ''tempHigh'' ` set observations))
    \<and> temp_low s = Min (insert 150 (number ''tempLow'' ` set observations))
    \<and> temp_avg s = round2 (mean (map (number ''tempAvg'') observations))
    \<and> windspeed_high s = Max (insert 0 (number ''windspeedHigh'' ` set observations))
    \<and> windspeed_low s = Min (insert 150 (number ''windspeedLow'' ` set observations))
    \<and> windspeed_avg s = round2 (mean (map (number ''windspeedAverage'') observations))
    \<and> wind_chill_high s = Max (insert 0 (number ''windchillHigh'' ` set observations))
    \<and> wind_chill_low s = Min (insert 150 (number ''windchillLow'' ` set observations))
    \<and> wind_chill_avg s = round2 (mean (map (number ''windchillAverage'') observations))"
  by (simp add: compile_daily_data_Inr [OF assms])

text \<open>
  C4 on the example of the claim. The day of three entries with the highs 70, 75, 68, the lows 60, 55, 58 and the averages
  65, 66, 63 has the high 75, the low 55 and the average 64.67.
\<close>

theorem compile_daily_data_high_low_avg_witness:
  "example_day \<noteq> [] \<and> list_all has_numbers example_day
   \<and> obsTimeLocal (last example_day) = Some (Some ''2024-03-04 03:00:00'')
   \<and> strptime_Y_m_d_H_M_S ''2024-03-04 03:00:00'' = Inr ((2024, 3, 4), 3, 0, 0)
   \<and> stationID (hd example_day) = Some (Some ''KCOBOULD1'')
   \<and> map (number ''tempHigh'') example_day = [70, 75, 68]
   \<and> map (number ''tempLow'') example_day = [60, 55, 58]
   \<and> map (number ''tempAvg'') example_day = [65, 66, 63]
   \<and> (\<exists>s. compile_daily_data example_day = Inr s
         \<and> temp_high s = 75 \<and> temp_low s = 55 \<and> temp_avg s = 64.67)"
proof -
  have s: "number k ` set example_day = set (map (number k) example_day)" for k
    by simp
  have r: "round2 (mean [65, 66, 63]) = 64.67"
    by (simp add: round2_def mean_def round_half_even_def Let_def)
  from compile_daily_data_high_low_avg [OF example_day_header(1) example_day_numbers
      example_day_header(2) example_time example_day_header(3)]
  obtain s where "compile_daily_data example_day = Inr s"
    "temp_high s = Max (insert 0 (number ''tempHigh'' ` set example_day))"
    "temp_low s = Min (insert 150 (number ''tempLow'' ` set example_day))"
    "temp_avg s = round2 (mean (map (number ''tempAvg'') example_day))"
    by blast
  then have "compile_daily_data example_day = Inr s \<and> temp_high s = 75 \<and> temp_low s = 55
      \<and> temp_avg s = 64.67"
    unfolding s example_day_temp r by simp
  then show ?thesis
    using example_day_header example_day_numbers example_time example_day_temp by blast
qed


lemma sentinel_day_numbers: "list_all has_numbers sentinel_day"
  by (simp add: sentinel_day_def sentinel_rows_def example_row_def row_to_observation_def has_numbers_def
      read_keys_def imperial_number_def)

lemma sentinel_day_values:
  "map (number ''tempHigh'') sentinel_day = [-5, -3]"
  "map (number ''tempLow'') sentinel_day = [160, 170]"
  "map (number ''windspeedHigh'') sentinel_day = [-2, -1]"
  "map (number ''windspeedLow'') sentinel_day = [151, 152]"
  "map (number ''windchillHigh'') sentinel_day = [-9, -7]"
  "map (number ''windchillLow'') sentinel_day = [155, 156]"
  "map (number ''precipRate'') sentinel_day = [-1, -2]"
  "map (number ''precipAverage'') sentinel_day = [0, 0.5]"
  by (simp_all add: sentinel_day_def sentinel_rows_def example_row_def row_to_observation_def number_def
      imperial_number_def)

lemma sentinel_day_header:
  "sentinel_day \<noteq> []"
  "obsTimeLocal (last sentinel_day) = Some (Some ''2024-01-15 02:00:00'')"
  "stationID (hd sentinel_day) = Some (Some ''KCOBOULD1'')"
  by (simp_all add: sentinel_day_def sentinel_rows_def example_row_def row_to_observation_def)

lemma sentinel_time: "strptime_Y_m_d_H_M_S ''2024-01-15 02:00:00'' = Inr ((2024, 1, 15), 2, 0, 0)"
  by code_simp

lemma sentinel_day_compiled:
  "compile_daily_data sentinel_day = Inr
    \<lparr> station_id = ''KCOBOULD1'', obs_time_local = ''2024-01-15'',
      friendly_date = ''January 15, 2024'',
      temp_high = 0, temp_low = 150, temp_avg = 25,
      windspeed_high = 0, windspeed_low = 150, windspeed_avg = 4.5,
      wind_chill_high = 0, wind_chill_low = 150, wind_chill_avg = 3.5,
      precip_rate = 0, precip_avg = 0.25 \<rparr>"
proof -
  have s: "number k ` set sentinel_day = set (map (number k) sentinel_day)" for k
    by simp
  have v: "map (number ''tempAvg'') sentinel_day = [20, 30]"
    "map (number ''windspeedAverage'') sentinel_day = [5, 4]"
    "map (number ''windchillAverage'') sentinel_day = [3, 4]"
    by (simp_all add: sentinel_day_def sentinel_rows_def example_row_def row_to_observation_def number_def
      imperial_number_def)
  have r: "round2 (mean [20, 30]) = 25" "round2 (mean [5, 4]) = 4.5" "round2 (mean [3, 4]) = 3.5"
    "round2 (mean [0, 0.5]) = 0.25"
    by (simp_all add: round2_def mean_def round_half_even_def Let_def)
  have c: "compile_daily_data sentinel_day = Inr
    \<lparr> station_id = ''KCOBOULD1'',
      obs_time_local = strftime_Y_m_d (fst ((2024, 1, 15), 2 :: nat, 0 :: nat, 0 :: nat)),
      friendly_date = strftime_friendly (fst ((2024, 1, 15), 2 :: nat, 0 :: nat, 0 :: nat)),
      temp_high = Max (insert 0 (number ''tempHigh'' ` set sentinel_day)),
      temp_low = Min (insert 150 (number ''tempLow'' ` set sentinel_day)),
      temp_avg = round2 (mean (map (number ''tempAvg'') sentinel_day)),
      windspeed_high = Max (insert 0 (number ''windspeedHigh'' ` set sentinel_day)),
      windspeed_low = Min (insert 150 (number ''windspeedLow'' ` set sentinel_day)),
      windspeed_avg = round2 (mean (map (number ''windspeedAverage'') sentinel_day)),
      wind_chill_high = Max (insert 0 (number ''windchillHigh'' ` set sentinel_day)),
      wind_chill_low = Min (insert 150 (number ''windchillLow'' ` set sentinel_day)),
      wind_chill_avg = round2 (mean (map (number ''windchillAverage'') sentinel_day)),
      precip_rate = Max (insert 0 (number ''precipRate'' ` set sentinel_day)),
      precip_avg = round2 (mean (map (number ''precipAverage'') sentinel_day)) \<rparr>"
    by (rule compile_daily_data_Inr [OF sentinel_day_header(1) sentinel_day_numbers
      sentinel_day_header(2) sentinel_time sentinel_day_header(3)])
  show ?thesis
    unfolding c s sentinel_day_values v r
    by (simp add: strftime_Y_m_d_def strftime_friendly_def pad2_def pad4_def digit_char_def
        month_name_def)
qed

text \<open>
  C4 as stated fails: on a day whose highs are -5 and -3 and whose lows are 160 and 170
  the summary has the high 0 and the low 150, not the maximum -3 and the minimum 160.
\<close>

theorem compile_daily_data_high_not_maximum:
  "compile_daily_data sentinel_day = Inr
    \<lparr> station_id = ''KCOBOULD1'', obs_time_local = ''2024-01-15'',
      friendly_date = ''January 15, 2024'',
      temp_high = 0, temp_low = 150, temp_avg = 25,
      windspeed_high = 0, windspeed_low = 150, windspeed_avg = 4.5,
      wind_chill_high = 0, wind_chill_low = 150, wind_chill_avg = 3.5,
      precip_rate = 0, precip_avg = 0.25 \<rparr>
   \<and> map (number ''tempHigh'') sentinel_day = [-5, -3]
   \<and> Max (number ''tempHigh'' ` set sentinel_day) = -3
   \<and> map (number ''tempLow'') sentinel_day = [160, 170]
   \<and> Min (number ''tempLow'' ` set sentinel_day) = 160"
proof -
  have s: "number k ` set sentinel_day = set (map (number k) sentinel_day)" for k
    by simp
  show ?thesis
    unfolding s sentinel_day_values by (simp add: sentinel_day_compiled)
qed

text \<open>
  C5. The running highs start at 0 and the running lows at 150: for a non-empty list the
  summary is returned and, for each field whose highs are all negative, its high is the
  sentinel 0 and not the true maximum, which is negative; for each field whose lows are
  all above 150, its low is the sentinel 150 and not the true minimum, which is above 150.
\<close>

theorem compile_daily_data_sentinels:
  assumes "observations \<noteq> []"
    and "list_all has_numbers observations"
    and "obsTimeLocal (last observations) = Some (Some ts)"
    and "strptime_Y_m_d_H_M_S ts = Inr dt"
    and "stationID (hd observations) = Some (Some station)"
  shows "\<exists>s. compile_daily_data observations = Inr s
    \<and> ((\<forall>obs\<in>set observations. number ''tempHigh'' obs < 0) \<longrightarrow>
          temp_high s = 0 \<and> Max (number ''tempHigh'' ` set observations) < 0)
    \<and> ((\<forall>obs\<in>set observations. number ''windspeedHigh'' obs < 0) \<longrightarrow>
          windspeed_high s = 0 \<and> Max (number ''windspeedHigh'' ` set observations) < 0)
    \<and> ((\<forall>obs\<in>set observations. number ''windchillHigh'' obs < 0) \<longrightarrow>
          wind_chill_high s = 0 \<and> Max (number ''windchillHigh'' ` set observations) < 0)
    \<and> ((\<forall>obs\<in>set observations. number ''precipRate'' obs < 0) \<longrightarrow>
          precip_rate s = 0 \<and> Max (number ''precipRate'' ` set observations) < 0)
    \<and> ((\<forall>obs\<in>set observations. 150 < number ''tempLow'' obs) \<longrightarrow>
          temp_low s = 150 \<and> 150 < Min (number ''tempLow'' ` set observations))
    \<and> ((\<forall>obs\<in>set observations. 150 < number ''windspeedLow'' obs) \<longrightarrow>
          windspeed_low s = 150 \<and> 150 < Min (number ''windspeedLow'' ` set observations))
    \<and> ((\<forall>obs\<in>set observations. 150 < number ''windchillLow'' obs) \<longrightarrow>
          wind_chill_low s = 150 \<and> 150 < Min (number ''windchillLow'' ` set observations))"
proof -
  have fin: "finite (number k ` set observations)" "number k ` set observations \<noteq> {}" for k
    using assms(1) by simp_all
  have hi: "(\<forall>obs\<in>set observations. number k obs < 0) \<longrightarrow>
      Max (insert 0 (number k ` set observations)) = 0 \<and> Max (number k ` set observations) < 0" for k
    using Max_insert_0_negative [OF fin, of k] by blast
  have lo: "(\<forall>obs\<in>set observations. 150 < number k obs) \<longrightarrow>
      Min (insert 150 (number k ` set observations)) = 150 \<and> 150 < Min (number k ` set observations)" for k
    using Min_insert_150_above [OF fin, of k] by blast
  show ?thesis
    unfolding compile_daily_data_Inr [OF assms]
    using hi [of "''tempHigh''"] hi [of "''windspeedHigh''"] hi [of "''windchillHigh''"]
      hi [of "''precipRate''"] lo [of "''tempLow''"] lo [of "''windspeedLow''"]
      lo [of "''windchillLow''"]
    by simp
qed

text \<open>
  C5 on an example. On the day with the highs -5 and -3 and the lows 160 and 170 (and the same for wind
  speed, wind chill and precipitation rate) every high is 0 and every low is 150.
\<close>

theorem compile_daily_data_sentinels_witness:
  "sentinel_day \<noteq> [] \<and> list_all has_numbers sentinel_day
   \<and> obsTimeLocal (last sentinel_day) = Some (Some ''2024-01-15 02:00:00'')
   \<and> strptime_Y_m_d_H_M_S ''2024-01-15 02:00:00'' = Inr ((2024, 1, 15), 2, 0, 0)
   \<and> stationID (hd sentinel_day) = Some (Some ''KCOBOULD1'')
   \<and> list_all (\<lambda>obs. number ''tempHigh'' obs < 0) sentinel_day
   \<and> list_all (\<lambda>obs. number ''windspeedHigh'' obs < 0) sentinel_day
   \<and> list_all (\<lambda>obs. number ''windchillHigh'' obs < 0) sentinel_day
   \<and> list_all (\<lambda>obs. number ''precipRate'' obs < 0) sentinel_day
   \<and> list_all (\<lambda>obs. 150 < number ''tempLow'' obs) sentinel_day
   \<and> list_all (\<lambda>obs. 150 < number ''windspeedLow'' obs) sentinel_day
   \<and> list_all (\<lambda>obs. 150 < number ''windchillLow'' obs) sentinel_day
   \<and> (\<exists>s. compile_daily_data sentinel_day = Inr s
        \<and> temp_high s = 0 \<and> windspeed_high s = 0 \<and> wind_chill_high s = 0 \<and> precip_rate s = 0
        \<and> temp_low s = 150 \<and> windspeed_low s = 150 \<and> wind_chill_low s = 150)"
proof -
  have h: "\<forall>obs\<in>set sentinel_day. number ''tempHigh'' obs < 0"
    "\<forall>obs\<in>set sentinel_day. number ''windspeedHigh'' obs < 0"
    "\<forall>obs\<in>set sentinel_day. number ''windchillHigh'' obs < 0"
    "\<forall>obs\<in>set sentinel_day. number ''precipRate'' obs < 0"
    "\<forall>obs\<in>set sentinel_day. 150 < number ''tempLow'' obs"
    "\<forall>obs\<in>set sentinel_day. 150 < number ''windspeedLow'' obs"
    "\<forall>obs\<in>set sentinel_day. 150 < number ''windchillLow'' obs"
    by (simp_all add: sentinel_day_def sentinel_rows_def example_row_def row_to_observation_def number_def
        imperial_number_def)
  from compile_daily_data_sentinels [OF sentinel_day_header(1) sentinel_day_numbers
      sentinel_day_header(2) sentinel_time sentinel_day_header(3)] h
  have "\<exists>s. compile_daily_data sentinel_day = Inr s
        \<and> temp_high s = 0 \<and> windspeed_high s = 0 \<and> wind_chill_high s = 0 \<and> precip_rate s = 0
        \<and> temp_low s = 150 \<and> windspeed_low s = 150 \<and> wind_chill_low s = 150"
    by blast
  then show ?thesis
    using h sentinel_day_header sentinel_day_numbers sentinel_time
    unfolding list_all_iff by blast
qed

lemma number_row_to_observation:
  "\<not> isl (imperial_number (row_to_observation r) ''precipRate'') \<Longrightarrow>
     number ''precipRate'' (row_to_observation r) = the (col_precip_rate r)"
  "\<not> isl (imperial_number (row_to_observation r) ''precipAverage'') \<Longrightarrow>
     number ''precipAverage'' (row_to_observation r) = the (col_precip_total r)"
  by (auto simp: number_def imperial_number_def row_to_observation_def split: option.splits)

lemma has_numbers_precip:
  "has_numbers obs \<Longrightarrow> \<not> isl (imperial_number obs ''precipRate'')"
  "has_numbers obs \<Longrightarrow> \<not> isl (imperial_number obs ''precipAverage'')"
  by (simp_all add: has_numbers_def read_keys_def)

lemma precipitation_of_rows:
  assumes "list_all has_numbers (map row_to_observation selected)"
  shows "map (number ''precipRate'') (map row_to_observation selected)
           = map (\<lambda>r. the (col_precip_rate r)) selected"
    and "map (number ''precipAverage'') (map row_to_observation selected)
           = map (\<lambda>r. the (col_precip_total r)) selected"
proof -
  from assms have "\<forall>r\<in>set selected. has_numbers (row_to_observation r)"
    by (simp add: list_all_iff)
  then show "map (number ''precipRate'') (map row_to_observation selected)
           = map (\<lambda>r. the (col_precip_rate r)) selected"
    and "map (number ''precipAverage'') (map row_to_observation selected)
           = map (\<lambda>r. the (col_precip_total r)) selected"
    by (simp_all add: number_row_to_observation has_numbers_precip)
qed

text \<open>
  C6, as amended. For a non-empty list of observations (under the conditions of C4) the
  summary is returned, its precipitation rate is the maximum of 0 and the per-observation
  precipitation rates, and its precipitation avg is the arithmetic mean, rounded to two
  decimals, of the values under the key \<open>precipAverage\<close>; for observations rebuilt by
  \<open>query_by_date\<close> from selected rows these are the rows' \<open>precip_rate\<close> and
  \<open>precip_total\<close> columns.
\<close>

theorem compile_daily_data_precipitation:
  assumes "observations \<noteq> []"
    and "list_all has_numbers observations"
    and "obsTimeLocal (last observations) = Some (Some ts)"
    and "strptime_Y_m_d_H_M_S ts = Inr dt"
    and "stationID (hd observations) = Some (Some station)"
  shows "\<exists>s. compile_daily_data observations = Inr s
    \<and> precip_rate s = Max (insert 0 (number ''precipRate'' ` set observations))
    \<and> precip_avg s = round2 (mean (map (number ''precipAverage'') observations))
    \<and> (\<forall>selected. observations = map row_to_observation selected \<longrightarrow>
          precip_rate s = Max (insert 0 ((\<lambda>r. the (col_precip_rate r)) ` set selected))
          \<and> precip_avg s = round2 (mean (map (\<lambda>r. the (col_precip_total r)) selected)))"
proof -
  have rate: "number ''precipRate'' ` set observations = (\<lambda>r. the (col_precip_rate r)) ` set selected"
    and total: "map (number ''precipAverage'') observations = map (\<lambda>r. the (col_precip_total r)) selected"
    if eq: "observations = map row_to_observation selected" for selected
  proof -
    from assms(2) eq have n: "list_all has_numbers (map row_to_observation selected)" by simp
    have "number ''precipRate'' ` set observations = set (map (number ''precipRate'') observations)"
      by simp
    also have "\<dots> = set (map (\<lambda>r. the (col_precip_rate r)) selected)"
      unfolding eq precipitation_of_rows(1) [OF n] ..
    finally show "number ''precipRate'' ` set observations = (\<lambda>r. the (col_precip_rate r)) ` set selected"
      by simp
    show "map (number ''precipAverage'') observations = map (\<lambda>r. the (col_precip_total r)) selected"
      unfolding eq precipitation_of_rows(2) [OF n] ..
  qed
  obtain s where c: "compile_daily_data observations = Inr s"
    and pr: "precip_rate s = Max (insert 0 (number ''precipRate'' ` set observations))"
    and pa: "precip_avg s = round2 (mean (map (number ''precipAverage'') observations))"
    using compile_daily_data_Inr [OF assms] by simp
  have "precip_rate s = Max (insert 0 ((\<lambda>r. the (col_precip_rate r)) ` set selected))
          \<and> precip_avg s = round2 (mean (map (\<lambda>r. the (col_precip_total r)) selected))"
    if eq: "observations = map row_to_observation selected" for selected
    unfolding pr pa rate [OF eq] total [OF eq] by (rule conjI; rule refl)
  with c pr pa show ?thesis by blast
qed

text \<open>
  C6 on an example. The example day with the rates 0, 0.1, 0.3 and the totals 0, 0.02, 0.05 has the rate 0.3
  and the average 0.02.
\<close>

theorem compile_daily_data_precipitation_witness:
  "example_day \<noteq> [] \<and> list_all has_numbers example_day
   \<and> obsTimeLocal (last example_day) = Some (Some ''2024-03-04 03:00:00'')
   \<and> strptime_Y_m_d_H_M_S ''2024-03-04 03:00:00'' = Inr ((2024, 3, 4), 3, 0, 0)
   \<and> stationID (hd example_day) = Some (Some ''KCOBOULD1'')
   \<and> example_day = map row_to_observation example_rows
   \<and> map col_precip_rate example_rows = [Some 0, Some 0.1, Some 0.3]
   \<and> map col_precip_total example_rows = [Some 0, Some 0.02, Some 0.05]
   \<and> map (number ''precipRate'') example_day = [0, 0.1, 0.3]
   \<and> map (number ''precipAverage'') example_day = [0, 0.02, 0.05]
   \<and> (\<exists>s. compile_daily_data example_day = Inr s \<and> precip_rate s = 0.3 \<and> precip_avg s = 0.02)"
proof -
  have s: "number k ` set example_day = set (map (number k) example_day)" for k
    by simp
  have v: "map (number ''precipRate'') example_day = [0, 0.1, 0.3]"
    "map (number ''precipAverage'') example_day = [0, 0.02, 0.05]"
    by (simp_all add: example_day_def example_rows_def example_row_def row_to_observation_def number_def
      imperial_number_def)
  have c: "map col_precip_rate example_rows = [Some 0, Some 0.1, Some 0.3]"
    "map col_precip_total example_rows = [Some 0, Some 0.02, Some 0.05]"
    by (simp_all add: example_rows_def example_row_def)
  have r: "round2 (mean [0, 0.02, 0.05]) = 0.02"
    by (simp add: round2_def mean_def round_half_even_def Let_def)
  from compile_daily_data_precipitation [OF example_day_header(1) example_day_numbers
      example_day_header(2) example_time example_day_header(3)]
  obtain s where "compile_daily_data example_day = Inr s"
    "precip_rate s = Max (insert 0 (number ''precipRate'' ` set example_day))"
    "precip_avg s = round2 (mean (map (number ''precipAverage'') example_day))"
    by blast
  then have "compile_daily_data example_day = Inr s \<and> precip_rate s = 0.3 \<and> precip_avg s = 0.02"
    unfolding s v r by simp
  then show ?thesis
    using example_day_header example_day_numbers example_time v c example_day_def by blast
qed

text \<open>
  C6 as stated fails: on a day whose precipitation rates are -1 and -2 the summary has
  the rate 0, not the maximum -1.
\<close>

theorem compile_daily_data_rate_not_maximum:
  "compile_daily_data sentinel_day = Inr
    \<lparr> station_id = ''KCOBOULD1'', obs_time_local = ''2024-01-15'',
      friendly_date = ''January 15, 2024'',
      temp_high = 0, temp_low = 150, temp_avg = 25,
      windspeed_high = 0, windspeed_low = 150, windspeed_avg = 4.5,
      wind_chill_high = 0, wind_chill_low = 150, wind_chill_avg = 3.5,
      precip_rate = 0, precip_avg = 0.25 \<rparr>
   \<and> map (number ''precipRate'') sentinel_day = [-1, -2]
   \<and> Max (number ''precipRate'' ` set sentinel_day) = -1"
proof -
  have s: "number k ` set sentinel_day = set (map (number k) sentinel_day)" for k
    by simp
  show ?thesis
    unfolding s sentinel_day_values by (simp add: sentinel_day_compiled)
qed

lemma imperial_number_error:
  "imperial_number obs k = Inl e \<Longrightarrow> e = KeyError \<or> e = TypeError"
  by (auto simp: imperial_number_def split: option.splits)

lemma missing_or_null_iff: "missing_or_null obs k \<longleftrightarrow> isl (imperial_number obs k)"
  by (auto simp: missing_or_null_def imperial_number_def split: option.splits)

lemma bind_err_Inl_cases:
  "bind_err m f = Inl e \<longleftrightarrow> m = Inl e \<or> (\<exists>x. m = Inr x \<and> f x = Inl e)"
  by (cases m) (auto simp: bind_err_def)

lemma loop_body_Inl:
  assumes "\<not> has_numbers obs"
  shows "\<exists>e. loop_body acc obs = Inl e \<and> (e = KeyError \<or> e = TypeError)"
proof -
  from assms obtain k where k: "k \<in> set read_keys" "isl (imperial_number obs k)"
    by (auto simp: has_numbers_def list_all_iff)
  have err: "\<And>k x. imperial_number obs k = Inl x \<Longrightarrow> x = KeyError \<or> x = TypeError"
    by (rule imperial_number_error)
  show ?thesis
  proof (cases "loop_body acc obs")
    case (Inl e)
    then have "e = KeyError \<or> e = TypeError"
      unfolding loop_body_def bind_err_Inl_cases using err by auto
    with Inl show ?thesis by simp
  next
    case (Inr a)
    then have "\<forall>k\<in>set read_keys. \<not> isl (imperial_number obs k)"
      unfolding loop_body_def read_keys_def
      by (auto simp: bind_err_def split: sum.splits)
    with k show ?thesis by blast
  qed
qed

lemma compile_loop_Inl:
  "\<not> list_all has_numbers obs \<Longrightarrow>
     \<exists>e. compile_loop acc obs = Inl e \<and> (e = KeyError \<or> e = TypeError)"
proof (induction obs arbitrary: acc)
  case Nil
  then show ?case by simp
next
  case (Cons o1 obs)
  show ?case
  proof (cases "has_numbers o1")
    case True
    with Cons.prems have "\<not> list_all has_numbers obs" by simp
    from Cons.IH [OF this] show ?thesis
      by (simp add: loop_body_Inr [OF True])
  next
    case False
    from loop_body_Inl [OF this, of acc] show ?thesis by auto
  qed
qed

lemma row_of_columns:
  assumes "insertable obs"
  shows "col_temperature_high (row_of obs) = imperial_get obs ''tempHigh''"
    "col_temperature_low (row_of obs) = imperial_get obs ''tempLow''"
    "col_temperature_average (row_of obs) = imperial_get obs ''tempAvg''"
    "col_wind_speed_high (row_of obs) = imperial_get obs ''windspeedHigh''"
    "col_wind_speed_low (row_of obs) = imperial_get obs ''windspeedLow''"
    "col_wind_speed_average (row_of obs) = imperial_get obs ''windspeedAvg''"
    "col_windchill_high (row_of obs) = imperial_get obs ''windchillHigh''"
    "col_windchill_low (row_of obs) = imperial_get obs ''windchillLow''"
    "col_windchill_average (row_of obs) = imperial_get obs ''windchillAvg''"
    "col_precip_rate (row_of obs) = imperial_get obs ''precipRate''"
    "col_precip_total (row_of obs) = imperial_get obs ''precipTotal''"
  using assms
  by (auto simp: insertable_def row_of_def insert_parameters_def subscript_def bind_err_def
      split: option.splits)

lemma null_survives_the_store:
  assumes "k \<in> set read_keys" "insertable obs" "missing_or_null obs (provider_key k)"
  shows "missing_or_null (row_to_observation (row_of obs)) k"
proof -
  from assms(3) have g: "imperial_get obs (provider_key k) = None"
    by (auto simp: missing_or_null_def imperial_get_def split: option.splits)
  from assms(1) have "k = ''tempHigh'' \<or> k = ''tempLow'' \<or> k = ''tempAvg'' \<or> k = ''windspeedHigh''
    \<or> k = ''windspeedLow'' \<or> k = ''windspeedAverage'' \<or> k = ''windchillHigh''
    \<or> k = ''windchillLow'' \<or> k = ''windchillAverage'' \<or> k = ''precipRate'' \<or> k = ''precipAverage''"
    by (simp add: read_keys_def)
  then show ?thesis
    using g
    by (elim disjE)
       (simp_all add: missing_or_null_def row_to_observation_def provider_key_def
          row_of_columns [OF assms(2)])
qed

text \<open>
  C10. If some observation of the list has one of the eleven keys missing or \<open>None\<close>,
  \<open>compile_daily_data\<close> raises; when the last timestamp parses and the first
  observation has a station id, the exception is the \<open>KeyError\<close> or \<open>TypeError\<close> of the
  read, comparison or addition on such a field. The store permits such observations: a
  field that the received observation lacks (or holds as \<open>None\<close>) is written as NULL and
  comes back from \<open>query_by_date\<close> as \<open>None\<close>.
\<close>

theorem compile_daily_data_missing_field:
  assumes "obs \<in> set observations" and "k \<in> set read_keys" and "missing_or_null obs k"
  shows "(\<exists>e. compile_daily_data observations = Inl e
      \<and> (obsTimeLocal (last observations) = Some (Some ts)
           \<and> strptime_Y_m_d_H_M_S ts = Inr dt
           \<and> stationID (hd observations) = Some station
         \<longrightarrow> e = KeyError \<or> e = TypeError))
    \<and> (insertable received \<and> missing_or_null received (provider_key k)
         \<longrightarrow> missing_or_null (row_to_observation (row_of received)) k)"
proof -
  from assms have "\<not> has_numbers obs"
    by (auto simp: has_numbers_def list_all_iff missing_or_null_iff)
  with assms(1) have "\<not> list_all has_numbers observations"
    by (auto simp: list_all_iff)
  from compile_loop_Inl [OF this, of initial_accumulators]
  obtain e where e: "compile_loop initial_accumulators observations = Inl e"
    "e = KeyError \<or> e = TypeError" by blast
  from assms(1) have ne: "observations \<noteq> []" by auto
  have 1: "\<exists>e. compile_daily_data observations = Inl e
      \<and> (obsTimeLocal (last observations) = Some (Some ts)
           \<and> strptime_Y_m_d_H_M_S ts = Inr dt
           \<and> stationID (hd observations) = Some station
         \<longrightarrow> e = KeyError \<or> e = TypeError)"
  proof (cases "obsTimeLocal (last observations) = Some (Some ts)
         \<and> strptime_Y_m_d_H_M_S ts = Inr dt \<and> stationID (hd observations) = Some station")
    case True
    then have "compile_daily_data observations = Inl e"
      by (simp add: compile_daily_data_def ne e subscript_def as_str_def bind_err_def Let_def)
    with e show ?thesis by simp
  next
    case False
    have "isl (compile_daily_data observations)"
      by (simp add: compile_daily_data_def ne e subscript_def as_str_def bind_err_def Let_def
          split: option.splits sum.splits)
    then obtain e' where "compile_daily_data observations = Inl e'"
      by (cases "compile_daily_data observations") auto
    with False show ?thesis by blast
  qed
  from 1 null_survives_the_store [OF assms(2)] show ?thesis by blast
qed

text \<open>
  C10 on an example. A day whose second row has NULL in \<open>temperature_high\<close> raises \<open>TypeError\<close>; that
  row is what the store returns for a received observation without \<open>tempHigh\<close>.
\<close>

theorem compile_daily_data_missing_field_witness:
  "gappy_day ! 1 \<in> set gappy_day \<and> ''tempHigh'' \<in> set read_keys
   \<and> missing_or_null (gappy_day ! 1) ''tempHigh''
   \<and> obsTimeLocal (last gappy_day) = Some (Some ''2024-03-05 02:00:00'')
   \<and> strptime_Y_m_d_H_M_S ''2024-03-05 02:00:00'' = Inr ((2024, 3, 5), 2, 0, 0)
   \<and> stationID (hd gappy_day) = Some (Some ''KCOBOULD1'')
   \<and> compile_daily_data gappy_day = Inl TypeError
   \<and> insertable gappy_observation
   \<and> missing_or_null gappy_observation (provider_key ''tempHigh'')
   \<and> missing_or_null (row_to_observation (row_of gappy_observation)) ''tempHigh''
   \<and> row_to_observation (row_of gappy_observation) = gappy_day ! 1"
proof -
  have h: "gappy_day ! 1 \<in> set gappy_day" "''tempHigh'' \<in> set read_keys"
    "missing_or_null (gappy_day ! 1) ''tempHigh''"
    by (simp_all add: gappy_day_def gappy_rows_def example_row_def row_to_observation_def read_keys_def
        missing_or_null_def)
  have t: "obsTimeLocal (last gappy_day) = Some (Some ''2024-03-05 02:00:00'')"
    "stationID (hd gappy_day) = Some (Some ''KCOBOULD1'')"
    by (simp_all add: gappy_day_def gappy_rows_def example_row_def row_to_observation_def)
  have p: "strptime_Y_m_d_H_M_S ''2024-03-05 02:00:00'' = Inr ((2024, 3, 5), 2, 0, 0)"
    by code_simp
  have g: "insertable gappy_observation" "missing_or_null gappy_observation (provider_key ''tempHigh'')"
    by (simp_all add: insertable_def gappy_observation_def missing_or_null_def provider_key_def)
  have r: "row_to_observation (row_of gappy_observation) = gappy_day ! 1"
    by (simp add: gappy_day_def gappy_rows_def example_row_def row_of_def insert_parameters_def
        gappy_observation_def subscript_def bind_err_def imperial_get_def get_or_None_def)
  from compile_daily_data_missing_field [OF h, of "''2024-03-05 02:00:00''" "((2024, 3, 5), 2, 0, 0)"
      "Some ''KCOBOULD1''" gappy_observation] t p g
  obtain e where e: "compile_daily_data gappy_day = Inl e" "e = KeyError \<or> e = TypeError"
    and m: "missing_or_null (row_to_observation (row_of gappy_observation)) ''tempHigh''"
    by blast
  have "compile_daily_data gappy_day \<noteq> Inl KeyError"
    by code_simp
  with e have "compile_daily_data gappy_day = Inl TypeError" by auto
  with h t p g m r show ?thesis by blast
qed

section \<open>Properties of the store\<close>

lemma insert_parameters_insertable:
  "insertable obs \<Longrightarrow> insert_parameters obs = Inr (row_of obs)"
  by (auto simp: insertable_def row_of_def insert_parameters_def subscript_def bind_err_def
      split: option.splits)

lemma row_of_timestamp:
  "insertable obs \<Longrightarrow> obsTimeLocal obs = Some (col_obs_time_local (row_of obs))
     \<and> col_obs_time_local (row_of obs) \<noteq> None
     \<and> stationID obs = Some (col_station_id (row_of obs))"
  by (auto simp: insertable_def row_of_def insert_parameters_def subscript_def bind_err_def
      split: option.splits)

lemma rows_logged [simp]: "rows (logged db evs) = rows db"
  by (simp add: logged_def)

lemma insert_loop_rows:
  "list_all insertable batch \<Longrightarrow>
     fst (insert_loop db batch) = Inr ()
     \<and> rows (snd (insert_loop db batch)) = insert_or_skip (rows db) (map row_of batch)"
proof (induction batch arbitrary: db)
  case Nil
  then show ?case by simp
next
  case (Cons obs batch)
  then have i: "insertable obs" and t: "list_all insertable batch" by simp_all
  show ?case
  proof (cases "collides (rows db) (row_of obs)")
    case True
    then show ?thesis
      using Cons.IH [OF t, of "logged db [Execute_insert (row_of obs)]"]
      by (simp add: insert_parameters_insertable [OF i] execute_insert_def)
  next
    case False
    then show ?thesis
      using Cons.IH [OF t, of "logged (db \<lparr> rows := rows db @ [row_of obs] \<rparr>) [Execute_insert (row_of obs)]"]
      by (simp add: insert_parameters_insertable [OF i] execute_insert_def)
  qed
qed

lemma insert_observations_rows:
  assumes "list_all insertable batch"
  shows "fst (insert_observations db batch) = Inr ()"
    and "rows (snd (insert_observations db batch)) = insert_or_skip (rows db) (map row_of batch)"
proof -
  obtain res db' where l: "insert_loop (logged db [Connect]) batch = (res, db')"
    by (cases "insert_loop (logged db [Connect]) batch")
  from insert_loop_rows [OF assms, of "logged db [Connect]"] l
  have r: "res = Inr ()" "rows db' = insert_or_skip (rows db) (map row_of batch)" by simp_all
  show "fst (insert_observations db batch) = Inr ()"
    by (simp add: insert_observations_def l r)
  show "rows (snd (insert_observations db batch)) = insert_or_skip (rows db) (map row_of batch)"
    by (simp add: insert_observations_def l r)
qed

lemma insert_or_skip_prefix: "\<exists>new. insert_or_skip table rs = table @ new"
proof (induction rs arbitrary: table)
  case Nil
  then show ?case by simp
next
  case (Cons r rs)
  from Cons.IH [of "if collides table r then table else table @ [r]"]
  show ?case by (auto split: if_splits)
qed

lemma collides_append: "collides table r \<Longrightarrow> collides (table @ new) r"
  by (auto simp: collides_def list_ex_iff split: option.splits)

lemma collides_after_step:
  "col_obs_time_local r \<noteq> None \<Longrightarrow> collides (if collides table r then table else table @ [r]) r"
  by (auto simp: collides_def list_ex_iff split: option.splits)

lemma insert_or_skip_collides:
  "\<forall>r\<in>set rs. col_obs_time_local r \<noteq> None \<Longrightarrow> \<forall>r\<in>set rs. collides (insert_or_skip table rs) r"
proof (induction rs arbitrary: table)
  case Nil
  then show ?case by simp
next
  case (Cons r rs)
  let ?t = "if collides table r then table else table @ [r]"
  from Cons.prems have "collides ?t r" by (simp add: collides_after_step)
  moreover obtain new where "insert_or_skip ?t rs = ?t @ new"
    using insert_or_skip_prefix by blast
  ultimately have "collides (insert_or_skip ?t rs) r"
    by (simp only: collides_append)
  moreover from Cons.prems have "\<forall>r\<in>set rs. collides (insert_or_skip ?t rs) r"
    by (intro Cons.IH) simp
  ultimately show ?case by simp
qed

lemma insert_or_skip_all_collide:
  "\<forall>r\<in>set rs. collides table r \<Longrightarrow> insert_or_skip table rs = table"
  by (induction rs) simp_all

lemma insert_or_skip_idempotent:
  assumes "\<forall>r\<in>set rs. col_obs_time_local r \<noteq> None"
  shows "insert_or_skip (insert_or_skip table rs) rs = insert_or_skip table rs"
  by (rule insert_or_skip_all_collide) (rule insert_or_skip_collides [OF assms])

lemma same_key_collides:
  assumes "insertable obs" and "r \<in> set table" and "same_key obs r"
  shows "collides table (row_of obs)"
proof -
  from row_of_timestamp [OF assms(1)] assms(3)
  have "col_obs_time_local r = col_obs_time_local (row_of obs)" "col_obs_time_local (row_of obs) \<noteq> None"
    by (auto simp: same_key_def)
  with assms(2) show ?thesis
    by (auto simp: collides_def list_ex_iff split: option.splits)
qed

text \<open>
  C2. For a batch of observations that can be inserted, \<open>insert_observations\<close> does not
  fail, on the first call or on the second; calling it twice leaves the rows that calling
  it once leaves; the rows stored before are kept, in place, whatever is inserted later;
  an item whose station and timestamp are those of a stored row is skipped and the rest
  of the batch is processed as if it were not there; an item that does not collide is
  appended before the rest is processed.
\<close>

theorem insert_observations_idempotent:
  assumes "list_all insertable batch"
  shows "fst (insert_observations db batch) = Inr ()
    \<and> fst (insert_observations (snd (insert_observations db batch)) batch) = Inr ()
    \<and> rows (snd (insert_observations (snd (insert_observations db batch)) batch))
        = rows (snd (insert_observations db batch))
    \<and> (\<exists>new. rows (snd (insert_observations db batch)) = rows db @ new)
    \<and> (\<forall>obs rest r. batch = obs # rest \<and> r \<in> set (rows db) \<and> same_key obs r \<longrightarrow>
          rows (snd (insert_observations db batch)) = rows (snd (insert_observations db rest)))
    \<and> (\<forall>obs rest. batch = obs # rest \<and> \<not> collides (rows db) (row_of obs) \<longrightarrow>
          rows (snd (insert_observations db batch))
            = rows (snd (insert_observations (db \<lparr> rows := rows db @ [row_of obs] \<rparr>) rest)))"
proof -
  let ?db1 = "snd (insert_observations db batch)"
  have ts: "\<forall>r\<in>set (map row_of batch). col_obs_time_local r \<noteq> None"
  proof
    fix r assume "r \<in> set (map row_of batch)"
    then obtain obs where "obs \<in> set batch" "r = row_of obs" by auto
    with assms have "insertable obs" by (simp add: list_all_iff)
    with \<open>r = row_of obs\<close> show "col_obs_time_local r \<noteq> None"
      using row_of_timestamp by blast
  qed
  have once: "fst (insert_observations db batch) = Inr ()"
    by (rule insert_observations_rows(1) [OF assms])
  have twice: "fst (insert_observations ?db1 batch) = Inr ()"
    by (rule insert_observations_rows(1) [OF assms])
  have idem: "rows (snd (insert_observations ?db1 batch)) = rows ?db1"
    by (simp add: insert_observations_rows(2) [OF assms] insert_or_skip_idempotent [OF ts])
  have kept: "\<exists>new. rows ?db1 = rows db @ new"
    by (simp add: insert_observations_rows(2) [OF assms] insert_or_skip_prefix)
  have skip: "rows ?db1 = rows (snd (insert_observations db rest))"
    if "batch = obs # rest" "r \<in> set (rows db)" "same_key obs r" for obs rest r
  proof -
    from assms that(1) have i: "insertable obs" and t: "list_all insertable rest"
      and a: "list_all insertable (obs # rest)" by simp_all
    from same_key_collides [OF i that(2,3)] show ?thesis
      unfolding that(1)
      by (simp add: insert_observations_rows(2) [OF a] insert_observations_rows(2) [OF t])
  qed
  have add: "rows ?db1 = rows (snd (insert_observations (db \<lparr> rows := rows db @ [row_of obs] \<rparr>) rest))"
    if "batch = obs # rest" "\<not> collides (rows db) (row_of obs)" for obs rest
  proof -
    from assms that(1) have t: "list_all insertable rest"
      and a: "list_all insertable (obs # rest)" by simp_all
    from that(2) show ?thesis
      unfolding that(1)
      by (simp add: insert_observations_rows(2) [OF a] insert_observations_rows(2) [OF t])
  qed
  from once twice idem kept skip add show ?thesis by blast
qed

lemma example_batch_rows:
  "map col_obs_time_local (insert_or_skip (rows stored_db) (map row_of example_batch)) =
       [Some ''2024-03-04 01:00:00'', Some ''2024-03-04 02:00:00'', Some ''2024-03-04 03:00:00'',
        Some ''2024-03-04 04:00:00'']"
  "map col_temperature_high (insert_or_skip (rows stored_db) (map row_of example_batch)) =
       [Some 70, Some 75, Some 68, Some 71]"
  by (simp_all add: stored_db_def example_rows_def example_batch_def row_of_def
      insert_parameters_def hourly_observation_def subscript_def bind_err_def collides_def
      example_row_def imperial_get_def)

lemma example_batch_insertable: "list_all insertable example_batch"
  by (simp add: example_batch_def insertable_def hourly_observation_def)

text \<open>
  C2 on an example. Into a store with rows at 01:00, 02:00 and 03:00 a batch with items at 03:00, 04:00 and
  04:00 again inserts the first item at 04:00 only, and a second call changes nothing.
\<close>

theorem insert_observations_idempotent_witness:
  "list_all insertable example_batch
   \<and> map col_obs_time_local (rows stored_db) =
       [Some ''2024-03-04 01:00:00'', Some ''2024-03-04 02:00:00'', Some ''2024-03-04 03:00:00'']
   \<and> map col_temperature_high (rows stored_db) = [Some 70, Some 75, Some 68]
   \<and> map obsTimeLocal example_batch =
       [Some (Some ''2024-03-04 03:00:00''), Some (Some ''2024-03-04 04:00:00''),
        Some (Some ''2024-03-04 04:00:00'')]
   \<and> fst (insert_observations stored_db example_batch) = Inr ()
   \<and> map col_obs_time_local (rows (snd (insert_observations stored_db example_batch))) =
       [Some ''2024-03-04 01:00:00'', Some ''2024-03-04 02:00:00'', Some ''2024-03-04 03:00:00'',
        Some ''2024-03-04 04:00:00'']
   \<and> map col_temperature_high (rows (snd (insert_observations stored_db example_batch))) =
       [Some 70, Some 75, Some 68, Some 71]
   \<and> rows (snd (insert_observations (snd (insert_observations stored_db example_batch)) example_batch))
        = rows (snd (insert_observations stored_db example_batch))"
proof -
  note i = example_batch_insertable
  have a: "map col_obs_time_local (rows stored_db) =
       [Some ''2024-03-04 01:00:00'', Some ''2024-03-04 02:00:00'', Some ''2024-03-04 03:00:00'']"
    "map col_temperature_high (rows stored_db) = [Some 70, Some 75, Some 68]"
    "map obsTimeLocal example_batch =
       [Some (Some ''2024-03-04 03:00:00''), Some (Some ''2024-03-04 04:00:00''),
        Some (Some ''2024-03-04 04:00:00'')]"
    by (simp_all add: stored_db_def example_rows_def example_row_def example_batch_def
        hourly_observation_def)
  have b: "map col_obs_time_local (rows (snd (insert_observations stored_db example_batch))) =
       [Some ''2024-03-04 01:00:00'', Some ''2024-03-04 02:00:00'', Some ''2024-03-04 03:00:00'',
        Some ''2024-03-04 04:00:00'']"
    "map col_temperature_high (rows (snd (insert_observations stored_db example_batch))) =
       [Some 70, Some 75, Some 68, Some 71]"
    unfolding insert_observations_rows(2) [OF i] by (rule example_batch_rows)+
  from insert_observations_idempotent [OF i, of stored_db]
  have "fst (insert_observations stored_db example_batch) = Inr ()"
    "rows (snd (insert_observations (snd (insert_observations stored_db example_batch)) example_batch))
        = rows (snd (insert_observations stored_db example_batch))"
    by blast+
  with i a b show ?thesis by blast
qed

section \<open>Properties of dates and their text forms\<close>

lemma divmod_less:
  fixes a b k :: nat
  shows "a < b \<longleftrightarrow> a div k < b div k \<or> (a div k = b div k \<and> a mod k < b mod k)"
proof (cases "a div k = b div k")
  case True
  have "a = k * (a div k) + a mod k" by simp
  moreover have "b = k * (a div k) + b mod k" unfolding True by simp
  ultimately
  have "a < b \<longleftrightarrow> a mod k < b mod k"
    by (metis nat_add_left_cancel_less)
  with True show ?thesis by simp
next
  case False
  have 1: "a < b" if "a div k < b div k"
  proof (rule ccontr)
    assume "\<not> a < b"
    then have "b div k \<le> a div k" by (simp add: div_le_mono)
    with that show False by simp
  qed
  have 2: "\<not> a < b" if "b div k < a div k"
  proof
    assume "a < b"
    then have "a div k \<le> b div k" by (simp add: div_le_mono)
    with that show False by simp
  qed
  from False 1 2 show ?thesis by (metis linorder_neqE_nat)
qed

lemma divmod_eq:
  fixes a b k :: nat
  shows "a = b \<longleftrightarrow> a div k = b div k \<and> a mod k = b mod k"
  by (metis div_mult_mod_eq)


lemma of_char_digit_char: "of_char (digit_char n) = (48 + n mod 10 :: nat)"
proof -
  have "n mod 10 = 0 \<or> n mod 10 = 1 \<or> n mod 10 = 2 \<or> n mod 10 = 3 \<or> n mod 10 = 4
    \<or> n mod 10 = 5 \<or> n mod 10 = 6 \<or> n mod 10 = 7 \<or> n mod 10 = 8 \<or> n mod 10 = 9"
    by presburger
  then show ?thesis
    by (elim disjE) (simp_all add: digit_char_def)
qed

lemma digit_char_less: "digit_char a < digit_char b \<longleftrightarrow> a mod 10 < b mod 10"
  by (simp add: less_char_def of_char_digit_char)

lemma digit_char_eq: "digit_char a = digit_char b \<longleftrightarrow> a mod 10 = b mod 10"
proof
  assume "digit_char a = digit_char b"
  then have "(of_char (digit_char a) :: nat) = of_char (digit_char b)" by simp
  then show "a mod 10 = b mod 10" by (simp add: of_char_digit_char)
next
  assume "a mod 10 = b mod 10"
  then show "digit_char a = digit_char b" by (simp add: digit_char_def)
qed

lemma pad2_less:
  assumes "a < 100" "b < 100"
  shows "pad2 a @ x < pad2 b @ y \<longleftrightarrow> a < b \<or> (a = b \<and> x < y)"
proof -
  have "a div 10 < 10" "b div 10 < 10" using assms by simp_all
  then have d: "a div 10 mod 10 = a div 10" "b div 10 mod 10 = b div 10" by simp_all
  have "pad2 a @ x < pad2 b @ y \<longleftrightarrow>
      a div 10 < b div 10 \<or> (a div 10 = b div 10 \<and> (a mod 10 < b mod 10 \<or> (a mod 10 = b mod 10 \<and> x < y)))"
    by (simp add: pad2_def digit_char_less digit_char_eq d)
  also have "\<dots> \<longleftrightarrow> a < b \<or> (a = b \<and> x < y)"
    using divmod_less [of a b 10] divmod_eq [of a b 10] by blast
  finally show ?thesis .
qed


lemma pad4_pad2: "pad4 n @ z = pad2 (n div 100) @ pad2 (n mod 100) @ z"
proof -
  have "n div (100 * 10) = n div 100 div 10" by (rule div_mult2_eq)
  then have 1: "n div 1000 mod 10 = n div 100 div 10 mod 10" by simp
  have "n mod (10 * 10) = 10 * (n div 10 mod 10) + n mod 10" by (rule mod_mult2_eq)
  then have "n mod 100 div 10 = n div 10 mod 10" by simp
  then have 2: "n div 10 mod 10 = n mod 100 div 10 mod 10" by simp
  have 3: "n mod 10 = n mod 100 mod 10" by (simp add: mod_mod_cancel)
  from 1 2 3 show ?thesis
    by (simp add: pad4_def pad2_def digit_char_eq)
qed

lemma pad4_less:
  assumes "a < 10000" "b < 10000"
  shows "pad4 a @ x < pad4 b @ y \<longleftrightarrow> a < b \<or> (a = b \<and> x < y)"
proof -
  have b: "a div 100 < 100" "b div 100 < 100" "a mod 100 < 100" "b mod 100 < 100"
    using assms by simp_all
  show ?thesis
    unfolding pad4_pad2 pad2_less [OF b(1,2)] pad2_less [OF b(3,4)]
    using divmod_less [of a b 100] divmod_eq [of a b 100] by blast
qed

lemma sep_less: "(c :: char) # x < c # y \<longleftrightarrow> x < y"
  by simp

lemma days_in_month_le: "days_in_month y m \<le> 31"
  by (simp add: days_in_month_def)

lemma strftime_less:
  assumes "valid_datetime a" "valid_datetime b"
  shows "strftime_Y_m_d_H_M_S a < strftime_Y_m_d_H_M_S b \<longleftrightarrow> a < b"
proof -
  obtain y1 m1 d1 H1 M1 S1 where a: "a = ((y1, m1, d1), H1, M1, S1)" by (metis prod_cases3 prod.collapse)
  obtain y2 m2 d2 H2 M2 S2 where b: "b = ((y2, m2, d2), H2, M2, S2)" by (metis prod_cases3 prod.collapse)
  from assms have bd: "y1 < 10000" "y2 < 10000" "m1 < 100" "m2 < 100" "d1 < 100" "d2 < 100"
    "H1 < 100" "H2 < 100" "M1 < 100" "M2 < 100" "S1 < 100" "S2 < 100"
    using days_in_month_le [of y1 m1] days_in_month_le [of y2 m2]
    by (simp_all add: a b valid_datetime_def valid_date_def)
  have s: "pad2 S1 < pad2 S2 \<longleftrightarrow> S1 < S2"
    using pad2_less [OF bd(11,12), of "[]" "[]"] by simp
  have "strftime_Y_m_d_H_M_S a < strftime_Y_m_d_H_M_S b \<longleftrightarrow>
    y1 < y2 \<or> (y1 = y2 \<and> (m1 < m2 \<or> (m1 = m2 \<and> (d1 < d2 \<or> (d1 = d2 \<and>
      (H1 < H2 \<or> (H1 = H2 \<and> (M1 < M2 \<or> (M1 = M2 \<and> S1 < S2)))))))))"
    unfolding a b strftime_Y_m_d_H_M_S_def strftime_Y_m_d_def prod.case append_assoc append_Cons
      append_Nil pad4_less [OF bd(1,2)] sep_less pad2_less [OF bd(3,4)] pad2_less [OF bd(5,6)]
      pad2_less [OF bd(7,8)] pad2_less [OF bd(9,10)] s ..
  also have "\<dots> \<longleftrightarrow> a < b"
    unfolding a b by (simp add: less_prod_def) linarith
  finally show ?thesis .
qed


lemma strftime_le:
  assumes "valid_datetime a" "valid_datetime b"
  shows "strftime_Y_m_d_H_M_S a \<le> strftime_Y_m_d_H_M_S b \<longleftrightarrow> a \<le> b"
  using strftime_less [OF assms(2,1)] by (simp add: not_less [symmetric])

lemma strptime_Y_m_d_H_M_S_valid:
  "strptime_Y_m_d_H_M_S t = Inr dt \<Longrightarrow> valid_datetime dt"
  by (auto simp: strptime_Y_m_d_H_M_S_def split: list.splits if_splits)

lemma strptime_Y_m_d_valid:
  "strptime_Y_m_d t = Inr d \<Longrightarrow> valid_date d"
  by (auto simp: strptime_Y_m_d_def split: list.splits if_splits)

lemma add_one_day_valid:
  "valid_date d \<Longrightarrow> add_one_day d = Inr d' \<Longrightarrow> valid_date d'"
  by (cases d) (auto simp: add_one_day_def valid_date_def days_in_month_def split: if_splits)

lemma valid_midnight: "valid_date d \<Longrightarrow> valid_datetime (midnight d)"
  by (simp add: valid_datetime_def midnight_def)

lemma strftime_midnight_eq: "strftime_midnight d = strftime_Y_m_d_H_M_S (midnight d)"
  by (simp add: strftime_midnight_def strftime_Y_m_d_H_M_S_def midnight_def pad2_def digit_char_def)

lemma canonical_timestampD:
  assumes "canonical_timestamp t"
  shows "\<exists>dt. strptime_Y_m_d_H_M_S t = Inr dt \<and> valid_datetime dt \<and> t = strftime_Y_m_d_H_M_S dt"
  using assms strptime_Y_m_d_H_M_S_valid
  by (auto simp: canonical_timestamp_def split: sum.splits)

lemma digit_in_digit_char: "digit_in lo hi (digit_char n) \<longleftrightarrow> lo \<le> n mod 10 \<and> n mod 10 \<le> hi"
  by (simp add: digit_in_def of_char_digit_char)

lemma digit_val_digit_char: "digit_val (digit_char n) = n mod 10"
  by (simp add: digit_val_def of_char_digit_char)

lemma four_digits:
  fixes y :: nat
  shows "1000 * (y div 1000) + 100 * (y div 100 mod 10) + 10 * (y div 10 mod 10) + y mod 10 = y"
proof -
  have "y mod (100 * 10) = 100 * (y div 100 mod 10) + y mod 100" by (rule mod_mult2_eq)
  moreover have "y mod (10 * 10) = 10 * (y div 10 mod 10) + y mod 10" by (rule mod_mult2_eq)
  moreover have "y = 1000 * (y div 1000) + y mod 1000" by simp
  ultimately show ?thesis by simp
qed

lemma mod_10_le_9: "n mod 10 \<le> (9 :: nat)"
proof -
  have "n mod 10 < 10" by simp
  then show ?thesis by linarith
qed

lemma re_Y_pad4:
  assumes "y < 10000"
  shows "re_Y (pad4 y @ r) = [(y, r)]"
proof -
  from assms have "y div 1000 < 10" by simp
  then have a: "y div 1000 mod 10 = y div 1000" by simp
  have "1000 * (y div 1000 mod 10) + 100 * (y div 100 mod 10) + 10 * (y div 10 mod 10) + y mod 10 = y"
    unfolding a by (rule four_digits)
  then show ?thesis
    unfolding pad4_def by (simp only: append_Cons append_Nil re_Y.simps digit_in_digit_char
        digit_val_digit_char mod_10_le_9 le0 simp_thms if_True)
qed

lemma re_m_pad2:
  assumes "1 \<le> m" "m \<le> 12"
  shows "\<exists>tl. re_m (pad2 m @ r) = (m, r) # tl"
proof -
  from assms have "m = 1 \<or> m = 2 \<or> m = 3 \<or> m = 4 \<or> m = 5 \<or> m = 6 \<or> m = 7 \<or> m = 8 \<or> m = 9
    \<or> m = 10 \<or> m = 11 \<or> m = 12" by presburger
  then show ?thesis
    by (elim disjE) (simp_all add: re_m_def pad2_def digit_char_def digit_in_def digit_val_def)
qed

lemma re_d_pad2:
  assumes "1 \<le> d" "d \<le> 31"
  shows "\<exists>tl. re_d (pad2 d @ r) = (d, r) # tl"
proof -
  from assms have "d = 1 \<or> d = 2 \<or> d = 3 \<or> d = 4 \<or> d = 5 \<or> d = 6 \<or> d = 7 \<or> d = 8 \<or> d = 9
    \<or> d = 10 \<or> d = 11 \<or> d = 12 \<or> d = 13 \<or> d = 14 \<or> d = 15 \<or> d = 16 \<or> d = 17 \<or> d = 18
    \<or> d = 19 \<or> d = 20 \<or> d = 21 \<or> d = 22 \<or> d = 23 \<or> d = 24 \<or> d = 25 \<or> d = 26 \<or> d = 27
    \<or> d = 28 \<or> d = 29 \<or> d = 30 \<or> d = 31" by presburger
  then show ?thesis
    by (elim disjE) (simp_all add: re_d_def pad2_def digit_char_def digit_in_def digit_val_def)
qed

lemma strptime_strftime_Y_m_d:
  assumes "valid_date d"
  shows "strptime_Y_m_d (strftime_Y_m_d d) = Inr d"
proof -
  obtain y m dd where d: "d = (y, m, dd)" by (cases d)
  from assms have b: "y < 10000" "1 \<le> m" "m \<le> 12" "1 \<le> dd" "dd \<le> 31"
    using days_in_month_le [of y m] by (simp_all add: d valid_date_def)
  obtain t1 where m: "re_m (pad2 m @ CHR ''-'' # pad2 dd) = (m, CHR ''-'' # pad2 dd) # t1"
    using re_m_pad2 [OF b(2,3)] by blast
  obtain t2 where dd: "re_d (pad2 dd) = (dd, []) # t2"
    using re_d_pad2 [OF b(4,5), of "[]"] by auto
  have "\<exists>tl. match_Y_m_d (strftime_Y_m_d d) = (d, []) # tl"
    by (simp add: match_Y_m_d_def strftime_Y_m_d_def d re_Y_pad4 [OF b(1)] m dd)
  with assms show ?thesis
    by (auto simp: strptime_Y_m_d_def)
qed

lemma add_one_day_greater: "add_one_day d = Inr n \<Longrightarrow> d < n"
  by (cases d) (auto simp: add_one_day_def split: if_splits)

lemma date_less:
  "((y, m, d) :: date) < (y', m', d') \<longleftrightarrow> y < y' \<or> (y = y' \<and> (m < m' \<or> (m = m' \<and> d < d')))"
  by (simp add: less_prod_def) linarith

lemma date_le:
  "((y, m, d) :: date) \<le> (y', m', d') \<longleftrightarrow> y < y' \<or> (y = y' \<and> (m < m' \<or> (m = m' \<and> d \<le> d')))"
  by (simp add: less_eq_prod_def less_prod_def) linarith

lemma add_one_day_no_gap:
  assumes "valid_date s" "add_one_day s = Inr n" "valid_date d" "s < d"
  shows "n \<le> d"
proof -
  obtain y m dd where s: "s = (y, m, dd)" by (cases s)
  obtain y' m' dd' where d: "d = (y', m', dd')" by (cases d)
  from assms(1,3) have v: "dd \<le> days_in_month y m" "dd' \<le> days_in_month y' m'" "m \<le> 12"
    "m' \<le> 12" "1 \<le> m'" "1 \<le> dd'"
    by (simp_all add: s d valid_date_def)
  from assms(4) consider "y < y'" | "y = y'" "m < m'" | "y = y'" "m = m'" "dd < dd'"
    unfolding s d date_less by blast
  then show ?thesis
  proof cases
    case 1
    with assms(2) v show ?thesis
      by (auto simp: s d add_one_day_def date_le split: if_splits)
  next
    case 2
    with assms(2) v show ?thesis
      by (auto simp: s d add_one_day_def date_le split: if_splits)
  next
    case 3
    with assms(2) v show ?thesis
      by (auto simp: s d add_one_day_def date_le split: if_splits)
  qed
qed

lemma add_one_day_overflow:
  assumes "valid_date s" "add_one_day s = Inl e"
  shows "s = (9999, 12, 31) \<and> e = OverflowError"
  using assms
  by (cases s) (auto simp: add_one_day_def valid_date_def days_in_month_def split: if_splits)

lemma valid_date_le_max: "valid_date d \<Longrightarrow> d \<le> (9999, 12, 31)"
  using days_in_month_le [of "fst d" "fst (snd d)"]
  by (cases d) (auto simp: valid_date_def days_in_month_def)

lemma add_one_day_before_max: "d < (9999, 12, 31) \<Longrightarrow> \<exists>n. add_one_day d = Inr n"
  by (cases d) (auto simp: add_one_day_def days_in_month_def is_leap_def)

declare days_walked.simps [simp del]

lemma days_walked_lower: "d \<in> set (days_walked s e) \<Longrightarrow> s \<le> d"
proof (induction s e rule: days_walked.induct)
  case (1 s e)
  show ?case
  proof (cases "add_one_day s")
    case (Inl err)
    with "1.prems" show ?thesis
      by (subst (asm) days_walked.simps) (auto split: if_splits)
  next
    case (Inr n)
    from "1.prems" Inr have "s \<le> e" and "d = s \<or> d \<in> set (days_walked n e)"
      by (subst (asm) days_walked.simps, auto split: if_splits)+
    with "1.IH" [OF \<open>s \<le> e\<close> Inr] add_one_day_greater [OF Inr] show ?thesis
      by auto
  qed
qed

lemma days_walked_sound:
  assumes "valid_date s" "d \<in> set (days_walked s e)"
  shows "valid_date d \<and> s \<le> d \<and> d \<le> e"
  using assms
proof (induction s e rule: days_walked.induct)
  case (1 s e)
  from "1.prems"(2) have le: "s \<le> e"
    by (subst (asm) days_walked.simps) (auto split: if_splits)
  show ?case
  proof (cases "add_one_day s")
    case (Inl err)
    with "1.prems" le show ?thesis
      by (subst (asm) days_walked.simps) auto
  next
    case (Inr n)
    from "1.prems"(2) le Inr have "d = s \<or> d \<in> set (days_walked n e)"
      by (subst (asm) days_walked.simps) auto
    then show ?thesis
    proof
      assume "d = s"
      with "1.prems"(1) le show ?thesis by simp
    next
      assume "d \<in> set (days_walked n e)"
      from "1.IH" [OF le Inr add_one_day_valid [OF "1.prems"(1) Inr] this]
        add_one_day_greater [OF Inr]
      show ?thesis by auto
    qed
  qed
qed

lemma days_walked_complete:
  assumes "valid_date s" "valid_date d" "s \<le> d" "d \<le> e"
  shows "d \<in> set (days_walked s e)"
  using assms
proof (induction s e rule: days_walked.induct)
  case (1 s e)
  from "1.prems" have le: "s \<le> e" by simp
  show ?case
  proof (cases "add_one_day s")
    case (Inl err)
    from add_one_day_overflow [OF "1.prems"(1) Inl] valid_date_le_max [OF "1.prems"(2)] "1.prems"(3)
    have "d = s" by simp
    with le Inl show ?thesis by (subst days_walked.simps) simp
  next
    case (Inr n)
    show ?thesis
    proof (cases "d = s")
      case True
      with le Inr show ?thesis by (subst days_walked.simps) simp
    next
      case False
      with "1.prems"(3) have "s < d" by simp
      from add_one_day_no_gap [OF "1.prems"(1) Inr "1.prems"(2) this]
      have "n \<le> d" .
      from "1.IH" [OF le Inr add_one_day_valid [OF "1.prems"(1) Inr] "1.prems"(2) this "1.prems"(4)]
      show ?thesis using le Inr by (subst days_walked.simps) simp
    qed
  qed
qed

lemma days_walked_ascending: "sorted_wrt (<) (days_walked s e)"
proof (induction s e rule: days_walked.induct)
  case (1 s e)
  show ?case
  proof (cases "s \<le> e")
    case False
    then show ?thesis by (subst days_walked.simps) simp
  next
    case True
    show ?thesis
    proof (cases "add_one_day s")
      case (Inl err)
      with True show ?thesis by (subst days_walked.simps) simp
    next
      case (Inr n)
      have "\<forall>d\<in>set (days_walked n e). s < d"
        using days_walked_lower add_one_day_greater [OF Inr] by fastforce
      with "1.IH" [OF True Inr] True Inr show ?thesis
        by (subst days_walked.simps) simp
    qed
  qed
qed

section \<open>Properties of the query by date\<close>

lemma has_timestampD:
  assumes "has_timestamp r"
  shows "col_obs_time_local r = Some (strftime_Y_m_d_H_M_S (timestamp_of r))
    \<and> valid_datetime (timestamp_of r)"
proof -
  from assms obtain t where t: "col_obs_time_local r = Some t" "canonical_timestamp t"
    by (auto simp: has_timestamp_def split: option.splits)
  from canonical_timestampD [OF t(2)] t(1) show ?thesis
    by (auto simp: timestamp_of_def)
qed

lemma in_range_timestamp:
  assumes "has_timestamp r" "valid_date d" "valid_date d'"
  shows "in_range (strftime_midnight d) (strftime_midnight d') r
    \<longleftrightarrow> midnight d \<le> timestamp_of r \<and> timestamp_of r < midnight d'"
  using has_timestampD [OF assms(1)] valid_midnight [OF assms(2)] valid_midnight [OF assms(3)]
  by (simp add: in_range_def strftime_midnight_eq strftime_le strftime_less)

lemma insort_key_order_cong:
  assumes "\<forall>y\<in>set ys. f x \<le> f y \<longleftrightarrow> g x \<le> g y"
  shows "insort_key f x ys = insort_key g x ys"
  using assms by (induction ys) simp_all

lemma sort_key_order_cong:
  assumes "\<forall>x\<in>set xs. \<forall>y\<in>set xs. f x \<le> f y \<longleftrightarrow> g x \<le> g y"
  shows "sort_key f xs = sort_key g xs"
  using assms
proof (induction xs)
  case Nil
  then show ?case by simp
next
  case (Cons x xs)
  then have "sort_key f xs = sort_key g xs" by simp
  moreover from Cons.prems have "\<forall>y\<in>set (sort_key g xs). f x \<le> f y \<longleftrightarrow> g x \<le> g y"
    by simp
  ultimately show ?case
    by (simp add: insort_key_order_cong)
qed

lemma timestamp_order:
  assumes "has_timestamp r" "has_timestamp r'"
  shows "col_obs_time_local r \<le> col_obs_time_local r' \<longleftrightarrow> timestamp_of r \<le> timestamp_of r'"
  using has_timestampD [OF assms(1)] has_timestampD [OF assms(2)]
  by (simp add: strftime_le)

text \<open>
  C3, as amended. For every date text that parses to a date \<open>d\<close> other than 9999-12-31
  (so that the next day exists) and every store whose rows carry canonical timestamps,
  \<open>query_by_date\<close> returns, as observations, exactly the rows whose timestamp lies in
  the interval from \<open>d\<close> 00:00:00 (included) to the next day 00:00:00 (excluded), in
  ascending order of timestamp; it returns the empty list when no row lies there, and it
  leaves the rows as they are.
\<close>

theorem query_by_date_interval:
  assumes "strptime_Y_m_d date_str = Inr d"
    and "add_one_day d = Inr next_day"
    and "list_all has_timestamp (rows db)"
  shows "fst (query_by_date db date_str) =
      Inr (map row_to_observation
        (sort_key timestamp_of
          (filter (\<lambda>r. midnight d \<le> timestamp_of r \<and> timestamp_of r < midnight next_day) (rows db))))
    \<and> sorted (map timestamp_of
        (sort_key timestamp_of
          (filter (\<lambda>r. midnight d \<le> timestamp_of r \<and> timestamp_of r < midnight next_day) (rows db))))
    \<and> (list_all (\<lambda>r. \<not> (midnight d \<le> timestamp_of r \<and> timestamp_of r < midnight next_day)) (rows db)
         \<longrightarrow> fst (query_by_date db date_str) = Inr [])
    \<and> rows (snd (query_by_date db date_str)) = rows db"
proof -
  let ?P = "\<lambda>r. midnight d \<le> timestamp_of r \<and> timestamp_of r < midnight next_day"
  have vd: "valid_date d" by (rule strptime_Y_m_d_valid [OF assms(1)])
  have vn: "valid_date next_day" by (rule add_one_day_valid [OF vd assms(2)])
  have ts: "\<forall>r\<in>set (rows db). has_timestamp r"
    using assms(3) by (simp add: list_all_iff)
  have f: "filter (in_range (strftime_midnight d) (strftime_midnight next_day)) (rows db)
      = filter ?P (rows db)"
    by (rule filter_cong [OF refl]) (simp add: in_range_timestamp ts vd vn)
  have s: "sort_key col_obs_time_local (filter ?P (rows db)) = sort_key timestamp_of (filter ?P (rows db))"
    by (rule sort_key_order_cong) (simp add: timestamp_order ts)
  have q: "query_by_date db date_str =
     (Inr (map row_to_observation (sort_key timestamp_of (filter ?P (rows db)))),
      logged (logged (logged db [Connect])
        [Execute_select (strftime_midnight d) (strftime_midnight next_day)]) [Close])"
    by (simp add: query_by_date_def assms(1,2) execute_select_def Let_def f s)
  have e: "filter ?P (rows db) = []" if "list_all (\<lambda>r. \<not> ?P r) (rows db)"
    using that by (simp add: list_all_iff filter_empty_conv)
  show ?thesis
    unfolding q using e by simp
qed

lemma march_4_parsed: "strptime_Y_m_d ''2024-03-04'' = Inr (2024, 3, 4)" by code_simp
lemma march_4_next_day: "add_one_day (2024, 3, 4) = Inr (2024, 3, 5)" by code_simp

lemma mixed_db_parsed:
  "strptime_Y_m_d_H_M_S ''2024-03-05 00:00:00'' = Inr ((2024, 3, 5), 0, 0, 0)"
  "strptime_Y_m_d_H_M_S ''2024-03-04 03:00:00'' = Inr ((2024, 3, 4), 3, 0, 0)"
  "strptime_Y_m_d_H_M_S ''2024-03-03 23:59:59'' = Inr ((2024, 3, 3), 23, 59, 59)"
  "strptime_Y_m_d_H_M_S ''2024-03-04 00:00:00'' = Inr ((2024, 3, 4), 0, 0, 0)"
  by code_simp+

lemma mixed_db_canonical:
  "canonical_timestamp ''2024-03-05 00:00:00''"
  "canonical_timestamp ''2024-03-04 03:00:00''"
  "canonical_timestamp ''2024-03-03 23:59:59''"
  "canonical_timestamp ''2024-03-04 00:00:00''"
  by code_simp+

lemma reading_time [simp]: "col_obs_time_local (reading t x) = Some t"
  by (simp add: reading_def example_row_def)

lemma mixed_db_timestamps: "list_all has_timestamp (rows mixed_db)"
  by (simp add: mixed_db_def has_timestamp_def mixed_db_canonical)

lemma mixed_db_times:
  "timestamp_of (reading ''2024-03-05 00:00:00'' x) = ((2024, 3, 5), 0, 0, 0)"
  "timestamp_of (reading ''2024-03-04 03:00:00'' x) = ((2024, 3, 4), 3, 0, 0)"
  "timestamp_of (reading ''2024-03-03 23:59:59'' x) = ((2024, 3, 3), 23, 59, 59)"
  "timestamp_of (reading ''2024-03-04 00:00:00'' x) = ((2024, 3, 4), 0, 0, 0)"
  by (simp_all add: timestamp_of_def mixed_db_parsed)

lemma mixed_db_selected: "sort_key timestamp_of
          (filter (\<lambda>r. midnight (2024, 3, 4) \<le> timestamp_of r \<and> timestamp_of r < midnight (2024, 3, 5))
             (rows mixed_db)) = [reading ''2024-03-04 00:00:00'' 55, reading ''2024-03-04 03:00:00'' 61]"
  by (simp add: mixed_db_def mixed_db_times midnight_def)

lemma obsTimeLocal_row_to_observation: "obsTimeLocal (row_to_observation r) = Some (col_obs_time_local r)"
  by (simp add: row_to_observation_def)

text \<open>
  C3 as stated fails for the date 9999-12-31: the end of the interval, one day later, is
  no datetime, and \<open>query_by_date\<close> raises \<open>OverflowError\<close>.
\<close>

theorem query_by_date_last_day:
  "fst (query_by_date mixed_db ''9999-12-31'') = Inl OverflowError"
proof -
  have "strptime_Y_m_d ''9999-12-31'' = Inr (9999, 12, 31)" by code_simp
  moreover have "add_one_day (9999, 12, 31) = Inl OverflowError" by code_simp
  ultimately show ?thesis
    by (simp add: query_by_date_def Let_def)
qed


text \<open>
  C3 on an example. From a store with rows at 2024-03-05 00:00:00, 2024-03-04 03:00:00, 2024-03-03 23:59:59
  and 2024-03-04 00:00:00, in this order, the date 2024-03-04 selects the rows at 00:00:00
  and 03:00:00 of that day, in this order.
\<close>

theorem query_by_date_interval_witness:
  "strptime_Y_m_d ''2024-03-04'' = Inr (2024, 3, 4)
   \<and> add_one_day (2024, 3, 4) = Inr (2024, 3, 5)
   \<and> list_all has_timestamp (rows mixed_db)
   \<and> map col_obs_time_local (rows mixed_db) =
       [Some ''2024-03-05 00:00:00'', Some ''2024-03-04 03:00:00'',
        Some ''2024-03-03 23:59:59'', Some ''2024-03-04 00:00:00'']
   \<and> fst (query_by_date mixed_db ''2024-03-04'') =
       Inr (map row_to_observation
         [reading ''2024-03-04 00:00:00'' 55, reading ''2024-03-04 03:00:00'' 61])"
proof -
  have c: "map col_obs_time_local (rows mixed_db) =
       [Some ''2024-03-05 00:00:00'', Some ''2024-03-04 03:00:00'',
        Some ''2024-03-03 23:59:59'', Some ''2024-03-04 00:00:00'']"
    by (simp add: mixed_db_def)
  from query_by_date_interval [OF march_4_parsed march_4_next_day mixed_db_timestamps]
  have "fst (query_by_date mixed_db ''2024-03-04'') =
       Inr (map row_to_observation
         [reading ''2024-03-04 00:00:00'' 55, reading ''2024-03-04 03:00:00'' 61])"
    unfolding mixed_db_selected by blast
  with march_4_parsed march_4_next_day mixed_db_timestamps c show ?thesis by blast
qed

section \<open>Properties of the backfill\<close>

declare historical_loop.simps [simp del]

lemma answers_Nil: "answers api n [] = []"
  by (simp add: answers_def)

lemma answers_Cons: "answers api n (r # reqs) = api n r # answers api (Suc n) reqs"
  by (simp add: answers_def map_upt_Suc del: upt_Suc)

lemma historical_loop_recorded:
  assumes "e < (9999, 12, 31)"
    and "list_all (\<lambda>a. \<not> isl a)
           (answers api (length calls) (map (hourly_request cfg) (days_walked s e)))"
  shows "historical_loop cfg (recorded api) s e acc calls =
    (Inr (acc @ concat (map projr
        (answers api (length calls) (map (hourly_request cfg) (days_walked s e))))),
     calls @ map (hourly_request cfg) (days_walked s e))"
  using assms
proof (induction s e arbitrary: acc calls rule: days_walked.induct)
  case (1 s e)
  show ?case
  proof (cases "s \<le> e")
    case False
    then show ?thesis
      by (subst historical_loop.simps, subst (1 2) days_walked.simps) (simp add: answers_Nil)
  next
    case True
    with "1.prems"(1) have "s < (9999, 12, 31)" by simp
    then obtain n where n: "add_one_day s = Inr n"
      using add_one_day_before_max by blast
    have d: "days_walked s e = s # days_walked n e"
      using True n by (subst days_walked.simps) simp
    from "1.prems"(2) obtain data where
      a: "api (length calls) (hourly_request cfg s) = Inr data"
      and rest: "list_all (\<lambda>a. \<not> isl a)
           (answers api (length (calls @ [hourly_request cfg s]))
              (map (hourly_request cfg) (days_walked n e)))"
      unfolding d by (cases "api (length calls) (hourly_request cfg s)") (auto simp: answers_Cons)
    have step: "recorded api (hourly_request cfg s) calls = (Inr data, calls @ [hourly_request cfg s])"
      by (simp add: recorded_def a)
    from "1.IH" [OF True n "1.prems"(1) rest, of "acc @ data"]
    show ?thesis
      by (subst historical_loop.simps) (simp add: True n d a step answers_Cons)
  qed
qed


lemma date_parameter_hourly_request: "date_parameter (hourly_request cfg d) = Some (strftime_Ymd d)"
  by (simp add: date_parameter_def hourly_request_def)

text \<open>
  C7, as amended. For every inclusive range of dates that ends before 9999-12-31 and as
  long as every call returns, the backfill makes exactly one call per day of the range, in
  strictly ascending order of the days, each with that day's eight-digit date, and returns
  the concatenation of what the calls returned; the days walked are exactly the calendar
  dates from the start to the end. \<open>init_db\<close>, for a database file that does not
  exist, the start \<open>earliest_observation\<close> and the end today, makes these calls and then
  passes the concatenated list to one call of \<open>insert_observations\<close> on the new database.
\<close>

theorem backfill_walk:
  assumes "strptime_Y_m_d start_str = Inr start"
    and "strptime_Y_m_d end_str = Inr end"
    and "end < (9999, 12, 31)"
    and "list_all (\<lambda>a. \<not> isl a)
           (answers api (length calls) (map (hourly_request cfg) (days_walked start end)))"
  shows "fetch_historical_hourly_data cfg (recorded api) start_str (Some end_str) calls =
      (Inr (concat (map projr
         (answers api (length calls) (map (hourly_request cfg) (days_walked start end))))),
       calls @ map (hourly_request cfg) (days_walked start end))
    \<and> map date_parameter (map (hourly_request cfg) (days_walked start end))
        = map (\<lambda>d. Some (strftime_Ymd d)) (days_walked start end)
    \<and> list_all (\<lambda>d. length (strftime_Ymd d) = 8) (days_walked start end)
    \<and> set (days_walked start end) = {d. valid_date d \<and> start \<le> d \<and> d \<le> end}
    \<and> sorted_wrt (<) (days_walked start end)
    \<and> (earliest_observation cfg = start_str \<and> strftime_Y_m_d today = end_str \<longrightarrow>
         init_db cfg (recorded api) today None calls =
           (fst (insert_observations (WeatherDB_init_db None)
                  (concat (map projr
                    (answers api (length calls) (map (hourly_request cfg) (days_walked start end)))))),
            Some (snd (insert_observations (WeatherDB_init_db None)
                  (concat (map projr
                    (answers api (length calls) (map (hourly_request cfg) (days_walked start end))))))),
            calls @ map (hourly_request cfg) (days_walked start end)))"
proof -
  let ?reqs = "map (hourly_request cfg) (days_walked start end)"
  let ?data = "concat (map projr (answers api (length calls) ?reqs))"
  have vs: "valid_date start" by (rule strptime_Y_m_d_valid [OF assms(1)])
  have f: "fetch_historical_hourly_data cfg (recorded api) start_str (Some end_str) calls =
      (Inr ?data, calls @ ?reqs)"
    using historical_loop_recorded [OF assms(3,4), of "[]"]
    by (simp add: fetch_historical_hourly_data_def assms(1,2))
  have p: "map date_parameter ?reqs = map (\<lambda>d. Some (strftime_Ymd d)) (days_walked start end)"
    by (simp add: date_parameter_hourly_request)
  have l: "list_all (\<lambda>d. length (strftime_Ymd d) = 8) (days_walked start end)"
    by (simp add: list_all_iff strftime_Ymd_def pad4_def pad2_def split: prod.splits)
  have s: "set (days_walked start end) = {d. valid_date d \<and> start \<le> d \<and> d \<le> end}"
    using days_walked_sound [OF vs] days_walked_complete [OF vs] by blast
  have i: "init_db cfg (recorded api) today None calls =
           (fst (insert_observations (WeatherDB_init_db None) ?data),
            Some (snd (insert_observations (WeatherDB_init_db None) ?data)),
            calls @ ?reqs)"
    if "earliest_observation cfg = start_str" "strftime_Y_m_d today = end_str"
    using that f by (simp add: init_db_def Let_def split: prod.splits)
  from f p l s days_walked_ascending [of start "end"] i show ?thesis by blast
qed


lemma january_parsed:
  "strptime_Y_m_d ''2024-01-01'' = Inr (2024, 1, 1)"
  "strptime_Y_m_d ''2024-01-03'' = Inr (2024, 1, 3)"
  by code_simp+

lemma january_days: "days_walked (2024, 1, 1) (2024, 1, 3) = [(2024, 1, 1), (2024, 1, 2), (2024, 1, 3)]"
  by code_simp

lemma january_answers:
  "answers example_api 0 (map (hourly_request example_config) [(2024, 1, 1), (2024, 1, 2), (2024, 1, 3)])
     = [Inr [hourly_observation ''2024-01-01 12:00:00'' 60],
        Inr [hourly_observation ''2024-01-02 12:00:00'' 61],
        Inr [hourly_observation ''2024-01-03 12:00:00'' 62]]"
  by (simp add: answers_Cons answers_Nil example_api_def)

lemma january_dates:
  "map (\<lambda>d. Some (strftime_Ymd d)) [(2024, 1, 1), (2024, 1, 2), (2024, 1, 3)]
     = [Some ''20240101'', Some ''20240102'', Some ''20240103'']"
  by (simp add: strftime_Ymd_def pad4_def pad2_def digit_char_def)

lemma january_inserted:
  "map col_obs_time_local (rows (snd (insert_observations (WeatherDB_init_db None)
      [hourly_observation ''2024-01-01 12:00:00'' 60,
       hourly_observation ''2024-01-02 12:00:00'' 61,
       hourly_observation ''2024-01-03 12:00:00'' 62])))
    = [Some ''2024-01-01 12:00:00'', Some ''2024-01-02 12:00:00'', Some ''2024-01-03 12:00:00'']"
proof -
  have i: "list_all insertable [hourly_observation ''2024-01-01 12:00:00'' 60,
       hourly_observation ''2024-01-02 12:00:00'' 61,
       hourly_observation ''2024-01-03 12:00:00'' 62]"
    by (simp add: insertable_def hourly_observation_def)
  show ?thesis
    unfolding insert_observations_rows(2) [OF i]
    by (simp add: WeatherDB_init_db_def row_of_def insert_parameters_def hourly_observation_def
        subscript_def bind_err_def collides_def)
qed

text \<open>
  C7 on the example of the claim. From 2024-01-01 to 2024-01-03: exactly the three calls with the dates 20240101, 20240102
  and 20240103, in this order, and one insert of the three observations returned.
\<close>

theorem backfill_walk_witness:
  "strptime_Y_m_d ''2024-01-01'' = Inr (2024, 1, 1)
   \<and> strptime_Y_m_d ''2024-01-03'' = Inr (2024, 1, 3)
   \<and> ((2024, 1, 3) :: date) < (9999, 12, 31)
   \<and> earliest_observation example_config = ''2024-01-01''
   \<and> strftime_Y_m_d (2024, 1, 3) = ''2024-01-03''
   \<and> fetch_historical_hourly_data example_config (recorded example_api)
        ''2024-01-01'' (Some ''2024-01-03'') [] =
       (Inr [hourly_observation ''2024-01-01 12:00:00'' 60,
             hourly_observation ''2024-01-02 12:00:00'' 61,
             hourly_observation ''2024-01-03 12:00:00'' 62],
        map (hourly_request example_config) [(2024, 1, 1), (2024, 1, 2), (2024, 1, 3)])
   \<and> map date_parameter (map (hourly_request example_config) [(2024, 1, 1), (2024, 1, 2), (2024, 1, 3)])
       = [Some ''20240101'', Some ''20240102'', Some ''20240103'']
   \<and> init_db example_config (recorded example_api) (2024, 1, 3) None [] =
       (fst (insert_observations (WeatherDB_init_db None)
              [hourly_observation ''2024-01-01 12:00:00'' 60,
               hourly_observation ''2024-01-02 12:00:00'' 61,
               hourly_observation ''2024-01-03 12:00:00'' 62]),
        Some (snd (insert_observations (WeatherDB_init_db None)
              [hourly_observation ''2024-01-01 12:00:00'' 60,
               hourly_observation ''2024-01-02 12:00:00'' 61,
               hourly_observation ''2024-01-03 12:00:00'' 62])),
        map (hourly_request example_config) [(2024, 1, 1), (2024, 1, 2), (2024, 1, 3)])
   \<and> map col_obs_time_local (rows (snd (insert_observations (WeatherDB_init_db None)
        [hourly_observation ''2024-01-01 12:00:00'' 60,
         hourly_observation ''2024-01-02 12:00:00'' 61,
         hourly_observation ''2024-01-03 12:00:00'' 62])))
       = [Some ''2024-01-01 12:00:00'', Some ''2024-01-02 12:00:00'', Some ''2024-01-03 12:00:00'']"
proof -
  have b: "((2024, 1, 3) :: date) < (9999, 12, 31)" by simp
  have e: "earliest_observation example_config = ''2024-01-01''"
    by (simp add: example_config_def)
  have t: "strftime_Y_m_d (2024, 1, 3) = ''2024-01-03''"
    by (simp add: strftime_Y_m_d_def pad4_def pad2_def digit_char_def)
  have ok: "list_all (\<lambda>a. \<not> isl a)
     (answers example_api (length ([] :: request list))
       (map (hourly_request example_config) (days_walked (2024, 1, 1) (2024, 1, 3))))"
    unfolding january_days list.size january_answers by simp
  have c: "concat (map projr (answers example_api 0
       (map (hourly_request example_config) [(2024, 1, 1), (2024, 1, 2), (2024, 1, 3)])))
     = [hourly_observation ''2024-01-01 12:00:00'' 60,
        hourly_observation ''2024-01-02 12:00:00'' 61,
        hourly_observation ''2024-01-03 12:00:00'' 62]"
    unfolding january_answers by simp
  from backfill_walk [OF january_parsed b ok, of "(2024, 1, 3)"] e t
  have "fetch_historical_hourly_data example_config (recorded example_api)
        ''2024-01-01'' (Some ''2024-01-03'') [] =
       (Inr [hourly_observation ''2024-01-01 12:00:00'' 60,
             hourly_observation ''2024-01-02 12:00:00'' 61,
             hourly_observation ''2024-01-03 12:00:00'' 62],
        map (hourly_request example_config) [(2024, 1, 1), (2024, 1, 2), (2024, 1, 3)])"
   and "map date_parameter (map (hourly_request example_config) [(2024, 1, 1), (2024, 1, 2), (2024, 1, 3)])
       = [Some ''20240101'', Some ''20240102'', Some ''20240103'']"
   and "init_db example_config (recorded example_api) (2024, 1, 3) None [] =
       (fst (insert_observations (WeatherDB_init_db None)
              [hourly_observation ''2024-01-01 12:00:00'' 60,
               hourly_observation ''2024-01-02 12:00:00'' 61,
               hourly_observation ''2024-01-03 12:00:00'' 62]),
        Some (snd (insert_observations (WeatherDB_init_db None)
              [hourly_observation ''2024-01-01 12:00:00'' 60,
               hourly_observation ''2024-01-02 12:00:00'' 61,
               hourly_observation ''2024-01-03 12:00:00'' 62])),
        map (hourly_request example_config) [(2024, 1, 1), (2024, 1, 2), (2024, 1, 3)])"
    unfolding january_days list.size c january_dates append_Nil by blast+
  with january_parsed b e t january_inserted show ?thesis by blast
qed


lemma last_day_parsed: "strptime_Y_m_d ''9999-12-31'' = Inr (9999, 12, 31)"
  by code_simp

lemma last_day_overflow: "add_one_day (9999, 12, 31) = Inl OverflowError"
  by code_simp

lemma last_day_loop:
  "historical_loop cfg (recorded quiet_api) (9999, 12, 31) (9999, 12, 31) [] [] =
     (Inl OverflowError, [hourly_request cfg (9999, 12, 31)])"
  by (subst historical_loop.simps) (simp add: recorded_def quiet_api_def last_day_overflow)

text \<open>
  C7 as stated fails for a range that ends on 9999-12-31: after the call for that day the
  step to the next day raises \<open>OverflowError\<close>; no list is returned and \<open>init_db\<close>
  makes no insert call (the log of the new database holds the creation of the table only).
\<close>

theorem backfill_walk_last_day:
  "fetch_historical_hourly_data last_day_config (recorded quiet_api) ''9999-12-31'' (Some ''9999-12-31'') []
     = (Inl OverflowError, [hourly_request last_day_config (9999, 12, 31)])
   \<and> init_db last_day_config (recorded quiet_api) (9999, 12, 31) None []
     = (Inl OverflowError,
        Some \<lparr> rows = [], db_log = [Connect, Execute_create_table, Commit, Close] \<rparr>,
        [hourly_request last_day_config (9999, 12, 31)])"
proof -
  have f: "fetch_historical_hourly_data last_day_config (recorded quiet_api) ''9999-12-31''
       (Some ''9999-12-31'') []
     = (Inl OverflowError, [hourly_request last_day_config (9999, 12, 31)])"
    by (simp add: fetch_historical_hourly_data_def last_day_parsed last_day_loop)
  have e: "earliest_observation last_day_config = ''9999-12-31''"
    by (simp add: last_day_config_def)
  have t: "strftime_Y_m_d (9999, 12, 31) = ''9999-12-31''"
    by (simp add: strftime_Y_m_d_def pad4_def pad2_def digit_char_def)
  show ?thesis
    by (simp add: init_db_def e t f WeatherDB_init_db_def)
qed

section \<open>Malformed dates\<close>

lemma strptime_Y_m_d_error: "strptime_Y_m_d s = Inl e \<Longrightarrow> e = ValueError"
  by (auto simp: strptime_Y_m_d_def split: list.splits if_splits)

text \<open>
  C9, as amended. A date text that \<open>strptime\<close> rejects makes \<open>query_by_date\<close> raise
  \<open>ValueError\<close> after it has opened a connection and before it executes any statement
  (the rows are untouched), and makes the backfill raise \<open>ValueError\<close> before any call,
  whether the text is the start date or, after a start date that parses, the end date.
\<close>

theorem malformed_date_rejected:
  assumes "isl (strptime_Y_m_d date_str)"
  shows "query_by_date db date_str = (Inl ValueError, logged db [Connect])
    \<and> rows (snd (query_by_date db date_str)) = rows db
    \<and> fetch_historical_hourly_data cfg call date_str end_date w = (Inl ValueError, w)
    \<and> (\<not> isl (strptime_Y_m_d start_str) \<longrightarrow>
         fetch_historical_hourly_data cfg call start_str (Some date_str) w = (Inl ValueError, w))"
proof -
  from assms have v: "strptime_Y_m_d date_str = Inl ValueError"
    using strptime_Y_m_d_error by (cases "strptime_Y_m_d date_str") auto
  have q: "query_by_date db date_str = (Inl ValueError, logged db [Connect])"
    by (simp add: query_by_date_def v)
  have f: "fetch_historical_hourly_data cfg call date_str end_date w = (Inl ValueError, w)"
    by (simp add: fetch_historical_hourly_data_def v)
  have g: "fetch_historical_hourly_data cfg call start_str (Some date_str) w = (Inl ValueError, w)"
    if "\<not> isl (strptime_Y_m_d start_str)"
    using that by (cases "strptime_Y_m_d start_str") (simp_all add: fetch_historical_hourly_data_def v)
  from q f g show ?thesis by simp
qed

lemma month_13_rejected: "strptime_Y_m_d ''2024-13-40'' = Inl ValueError"
  by code_simp

text \<open>
  C9 on an example. The text 2024-13-40 is rejected in each of the three places.
\<close>

theorem malformed_date_rejected_witness:
  "isl (strptime_Y_m_d ''2024-13-40'')
   \<and> \<not> isl (strptime_Y_m_d ''2024-01-01'')
   \<and> query_by_date mixed_db ''2024-13-40'' = (Inl ValueError, logged mixed_db [Connect])
   \<and> fetch_historical_hourly_data example_config (recorded quiet_api) ''2024-13-40'' None []
        = (Inl ValueError, [])
   \<and> fetch_historical_hourly_data example_config (recorded quiet_api) ''2024-01-01''
        (Some ''2024-13-40'') [] = (Inl ValueError, [])"
proof -
  have a: "isl (strptime_Y_m_d ''2024-13-40'')" by (simp add: month_13_rejected)
  have b: "\<not> isl (strptime_Y_m_d ''2024-01-01'')" by (simp add: january_parsed)
  from malformed_date_rejected [OF a, of mixed_db example_config "recorded quiet_api" None "[]"
      "''2024-01-01''"] a b
  show ?thesis by simp
qed

text \<open>
  C9 as stated fails for \<open>query_by_date\<close>: with the text 2024-13-40 the log of the
  database, empty before, holds a connection afterwards.
\<close>

theorem malformed_date_connects:
  "strptime_Y_m_d ''2024-13-40'' = Inl ValueError
   \<and> db_log mixed_db = []
   \<and> db_log (snd (query_by_date mixed_db ''2024-13-40'')) = [Connect]"
  by (simp add: month_13_rejected query_by_date_def logged_def mixed_db_def)

section \<open>Properties of make\_api\_call\<close>

declare sleep_and_retry.simps [simp del]

lemma response_result_not_rate_limit: "\<not> is_rate_limit (response_result outcome)"
  by (auto simp: response_result_def is_rate_limit_def
      split: http_outcome.splits body.splits option.splits)

lemma is_rate_limitE:
  assumes "is_rate_limit res"
  obtains remaining where "res = Inl (RateLimitException remaining)"
  using assms by (auto simp: is_rate_limit_def split: sum.splits error.splits)

lemma limits_cases:
  "(limits p r w = (Inl (RateLimitException (60 - (clock w - last_reset w))), w \<lparr> num_calls := num_calls w + 1 \<rparr>)
      \<and> 0 < 60 - (clock w - last_reset w) \<and> 30 \<le> num_calls w)
   \<or> (fst (limits p r w) = response_result (respond p (length (requests_sent w)) r)
      \<and> requests_sent (snd (limits p r w)) = requests_sent w @ [r]
      \<and> sleeps (snd (limits p r w)) = sleeps w
      \<and> (60 - (clock w - last_reset w) \<le> 0 \<or> num_calls w < 30))"
  by (auto simp: limits_def api_body_def Let_def)

declare on_exception.simps(2) [simp del]

lemma on_exception_Suc:
  "on_exception (Suc n) p r w =
     (if is_rate_limit (fst (limits p r w))
      then on_exception n p r
             (sleep (backoff_wait p (length (sleeps (snd (limits p r w))))) (snd (limits p r w)))
      else limits p r w)"
  by (auto simp: on_exception.simps(2) is_rate_limit_def split: prod.splits sum.splits error.splits)

lemma limits_refused:
  assumes "is_rate_limit (fst (limits p r w))"
  shows "limits p r w = (Inl (RateLimitException (60 - (clock w - last_reset w))),
                         w \<lparr> num_calls := num_calls w + 1 \<rparr>)
    \<and> 0 < 60 - (clock w - last_reset w) \<and> 30 \<le> num_calls w"
  using limits_cases [of p r w] assms response_result_not_rate_limit by auto

lemma limits_ran:
  assumes "\<not> is_rate_limit (fst (limits p r w))"
  shows "fst (limits p r w) = response_result (respond p (length (requests_sent w)) r)
      \<and> requests_sent (snd (limits p r w)) = requests_sent w @ [r]
      \<and> sleeps (snd (limits p r w)) = sleeps w
      \<and> (60 - (clock w - last_reset w) \<le> 0 \<or> num_calls w < 30)"
  using limits_cases [of p r w] assms by (auto simp: is_rate_limit_def)

lemma on_exception_refused:
  "is_rate_limit (fst (on_exception n p r w)) \<Longrightarrow>
     fst (on_exception n p r w)
        = Inl (RateLimitException (60 - (clock (snd (on_exception n p r w))
                                          - last_reset (snd (on_exception n p r w)))))
     \<and> 0 < 60 - (clock w - last_reset w) \<and> 30 \<le> num_calls w
     \<and> requests_sent (snd (on_exception n p r w)) = requests_sent w
     \<and> num_calls (snd (on_exception n p r w)) = num_calls w + Suc n
     \<and> (\<exists>ss. sleeps (snd (on_exception n p r w)) = sleeps w @ ss \<and> length ss = n)"
proof (induction n arbitrary: w)
  case 0
  from limits_refused [of p r w] 0 show ?case by simp
next
  case (Suc n)
  show ?case
  proof (cases "is_rate_limit (fst (limits p r w))")
    case True
    note l = limits_refused [OF True]
    let ?w1 = "w \<lparr> num_calls := num_calls w + 1 \<rparr>"
    let ?w2 = "sleep (backoff_wait p (length (sleeps ?w1))) ?w1"
    have e: "on_exception (Suc n) p r w = on_exception n p r ?w2"
      using True l by (simp add: on_exception_Suc)
    from Suc.prems have "is_rate_limit (fst (on_exception n p r ?w2))" by (simp add: e)
    from Suc.IH [OF this] l show ?thesis
      unfolding e by (auto simp: sleep_def)
  next
    case False
    then have "on_exception (Suc n) p r w = limits p r w" by (simp add: on_exception_Suc)
    with Suc.prems False show ?thesis by simp
  qed
qed

lemma on_exception_ran:
  "\<not> is_rate_limit (fst (on_exception n p r w)) \<Longrightarrow>
     fst (on_exception n p r w) = response_result (respond p (length (requests_sent w)) r)
     \<and> requests_sent (snd (on_exception n p r w)) = requests_sent w @ [r]
     \<and> (\<exists>ss. sleeps (snd (on_exception n p r w)) = sleeps w @ ss \<and> length ss \<le> n)
     \<and> (60 - (clock w - last_reset w) \<le> 0 \<or> num_calls w < 30
          \<longrightarrow> sleeps (snd (on_exception n p r w)) = sleeps w)"
proof (induction n arbitrary: w)
  case 0
  from limits_ran [of p r w] 0 show ?case by simp
next
  case (Suc n)
  show ?case
  proof (cases "is_rate_limit (fst (limits p r w))")
    case True
    note l = limits_refused [OF True]
    let ?w1 = "w \<lparr> num_calls := num_calls w + 1 \<rparr>"
    let ?w2 = "sleep (backoff_wait p (length (sleeps ?w1))) ?w1"
    have e: "on_exception (Suc n) p r w = on_exception n p r ?w2"
      using True l by (simp add: on_exception_Suc)
    from Suc.prems have "\<not> is_rate_limit (fst (on_exception n p r ?w2))" by (simp add: e)
    from Suc.IH [OF this] l show ?thesis
      unfolding e by (auto simp: sleep_def)
  next
    case False
    then have "on_exception (Suc n) p r w = limits p r w" by (simp add: on_exception_Suc)
    with limits_ran [OF False] show ?thesis by auto
  qed
qed

lemma sleep_and_retry_ran:
  assumes "\<not> is_rate_limit (fst (on_exception 2 p r w))"
  shows "sleep_and_retry p r w = on_exception 2 p r w"
  using assms
  by (subst sleep_and_retry.simps)
     (auto simp: is_rate_limit_def split: prod.splits sum.splits error.splits)

lemma sleep_and_retry_refused:
  assumes "is_rate_limit (fst (on_exception 2 p r w))"
  shows "sleep_and_retry p r w =
    sleep_and_retry p r
      (sleep (60 - (clock (snd (on_exception 2 p r w)) - last_reset (snd (on_exception 2 p r w))))
         (snd (on_exception 2 p r w)))"
proof -
  obtain res w1 where o: "on_exception 2 p r w = (res, w1)"
    by (cases "on_exception 2 p r w")
  from on_exception_refused [OF assms] o
  have res: "res = Inl (RateLimitException (60 - (clock w1 - last_reset w1)))" by simp
  show ?thesis
    by (subst sleep_and_retry.simps) (simp add: o res)
qed

lemma window_passed_after_sleep:
  "60 - (clock (sleep (60 - (clock w - last_reset w)) w)
          - last_reset (sleep (60 - (clock w - last_reset w)) w)) \<le> 0"
  by (simp add: sleep_def)

lemma on_exception_window_passed:
  assumes "60 - (clock w - last_reset w) \<le> 0"
  shows "\<not> is_rate_limit (fst (on_exception n p r w))"
  using on_exception_refused [of n p r w] assms by auto

text \<open>
  C8, as amended. Every call of \<open>make_api_call\<close> sends exactly one request and returns
  what the answer to it decodes to: an HTTP failure of any status from 400 to 599, a
  rate-limit rejection of the provider (429) among them, and a network failure are not
  retried and reach the caller at once. What is retried is a call that the limiter of the
  client refuses (more than 30 calls in the window of 60 seconds): it is tried three times
  in all with a backoff wait before the second and the third try, then
  \<open>sleep_and_retry\<close> sleeps for the rest of the window and the call runs; no more than
  three sleeps are taken, and none when the limiter has room.
\<close>

theorem make_api_call_retries:
  "fst (make_api_call p r w) = response_result (respond p (length (requests_sent w)) r)
   \<and> requests_sent (snd (make_api_call p r w)) = requests_sent w @ [r]
   \<and> (\<exists>ss. sleeps (snd (make_api_call p r w)) = sleeps w @ ss \<and> length ss \<le> 3)
   \<and> (60 - (clock w - last_reset w) \<le> 0 \<or> num_calls w < 30
        \<longrightarrow> sleeps (snd (make_api_call p r w)) = sleeps w)
   \<and> (is_rate_limit (fst (on_exception 2 p r w))
        \<longrightarrow> 0 < 60 - (clock w - last_reset w) \<and> 30 \<le> num_calls w
          \<and> num_calls (snd (on_exception 2 p r w)) = num_calls w + 3
          \<and> requests_sent (snd (on_exception 2 p r w)) = requests_sent w
          \<and> (\<exists>ss. sleeps (snd (on_exception 2 p r w)) = sleeps w @ ss \<and> length ss = 2)
          \<and> sleeps (snd (make_api_call p r w)) = sleeps (snd (on_exception 2 p r w))
               @ [60 - (clock (snd (on_exception 2 p r w)) - last_reset (snd (on_exception 2 p r w)))])
   \<and> (\<forall>status b. respond p (length (requests_sent w)) r = Response status b
          \<and> 400 \<le> status \<and> status < 600 \<longrightarrow> fst (make_api_call p r w) = Inl (HTTPError status))
   \<and> (respond p (length (requests_sent w)) r = No_response
          \<longrightarrow> fst (make_api_call p r w) = Inl ConnectionError)"
proof -
  let ?res = "response_result (respond p (length (requests_sent w)) r)"
  have main: "fst (make_api_call p r w) = ?res
   \<and> requests_sent (snd (make_api_call p r w)) = requests_sent w @ [r]
   \<and> (\<exists>ss. sleeps (snd (make_api_call p r w)) = sleeps w @ ss \<and> length ss \<le> 3)
   \<and> (60 - (clock w - last_reset w) \<le> 0 \<or> num_calls w < 30
        \<longrightarrow> sleeps (snd (make_api_call p r w)) = sleeps w)
   \<and> (is_rate_limit (fst (on_exception 2 p r w))
        \<longrightarrow> 0 < 60 - (clock w - last_reset w) \<and> 30 \<le> num_calls w
          \<and> num_calls (snd (on_exception 2 p r w)) = num_calls w + 3
          \<and> requests_sent (snd (on_exception 2 p r w)) = requests_sent w
          \<and> (\<exists>ss. sleeps (snd (on_exception 2 p r w)) = sleeps w @ ss \<and> length ss = 2)
          \<and> sleeps (snd (make_api_call p r w)) = sleeps (snd (on_exception 2 p r w))
               @ [60 - (clock (snd (on_exception 2 p r w)) - last_reset (snd (on_exception 2 p r w)))])"
  proof (cases "is_rate_limit (fst (on_exception 2 p r w))")
    case False
    have m: "make_api_call p r w = on_exception 2 p r w"
      by (simp add: make_api_call_def sleep_and_retry_ran [OF False])
    from on_exception_ran [OF False] obtain ss where
      r1: "fst (on_exception 2 p r w) = ?res"
      "requests_sent (snd (on_exception 2 p r w)) = requests_sent w @ [r]"
      "sleeps (snd (on_exception 2 p r w)) = sleeps w @ ss" "length ss \<le> 2"
      "60 - (clock w - last_reset w) \<le> 0 \<or> num_calls w < 30
          \<longrightarrow> sleeps (snd (on_exception 2 p r w)) = sleeps w"
      by blast
    from r1(4) have "length ss \<le> 3" by simp
    with r1 False show ?thesis
      unfolding m by blast
  next
    case True
    let ?w1 = "snd (on_exception 2 p r w)"
    let ?w2 = "sleep (60 - (clock ?w1 - last_reset ?w1)) ?w1"
    note ref = on_exception_refused [OF True]
    have passed: "60 - (clock ?w2 - last_reset ?w2) \<le> 0"
      by (rule window_passed_after_sleep)
    have ran: "\<not> is_rate_limit (fst (on_exception 2 p r ?w2))"
      by (rule on_exception_window_passed [OF passed])
    have m: "make_api_call p r w = on_exception 2 p r ?w2"
      by (simp add: make_api_call_def sleep_and_retry_refused [OF True] sleep_and_retry_ran [OF ran])
    from on_exception_ran [OF ran] passed
    have r2: "fst (on_exception 2 p r ?w2) = response_result (respond p (length (requests_sent ?w2)) r)"
      "requests_sent (snd (on_exception 2 p r ?w2)) = requests_sent ?w2 @ [r]"
      "sleeps (snd (on_exception 2 p r ?w2)) = sleeps ?w2"
      by blast+
    from ref obtain ss where ss: "sleeps ?w1 = sleeps w @ ss" "length ss = 2" by auto
    have w2: "requests_sent ?w2 = requests_sent w"
      "sleeps ?w2 = sleeps w @ (ss @ [60 - (clock ?w1 - last_reset ?w1)])"
      using ref ss by (simp_all add: sleep_def)
    have "length (ss @ [60 - (clock ?w1 - last_reset ?w1)]) \<le> 3" using ss by simp
    with r2 w2 ref ss True show ?thesis
      unfolding m by (auto simp: sleep_def)
  qed
  have h: "fst (make_api_call p r w) = Inl (HTTPError status)"
    if "respond p (length (requests_sent w)) r = Response status b" "400 \<le> status" "status < 600"
    for status b
    using main that by (simp add: response_result_def)
  have c: "fst (make_api_call p r w) = Inl ConnectionError"
    if "respond p (length (requests_sent w)) r = No_response"
    using main that by (simp add: response_result_def)
  from main h c show ?thesis by blast
qed

lemma busy_net_refused:
  "on_exception 2 healthy_provider current_request busy_net =
     (Inl (RateLimitException 47),
      \<lparr> clock = 13, num_calls = 33, last_reset = 0, requests_sent = [], sleeps = [1, 2] \<rparr>)"
  by (simp add: eval_nat_numeral on_exception.simps limits_def sleep_def busy_net_def
      healthy_provider_def Let_def)

text \<open>
  C8 on two examples. With 30 calls counted 10 seconds into the window, the call is refused three times (waits
  of 1 and 2 seconds), sleeps the remaining 47 seconds and sends its one request. With a
  provider that answers 429, the first call of a fresh process returns \<open>HTTPError 429\<close>
  after one request and no sleep.
\<close>

theorem make_api_call_retries_witness:
  "is_rate_limit (fst (on_exception 2 healthy_provider current_request busy_net))
   \<and> num_calls busy_net = 30 \<and> clock busy_net - last_reset busy_net = 10
   \<and> num_calls (snd (on_exception 2 healthy_provider current_request busy_net)) = 33
   \<and> sleeps (snd (on_exception 2 healthy_provider current_request busy_net)) = [1, 2]
   \<and> fst (make_api_call healthy_provider current_request busy_net) = Inr []
   \<and> requests_sent (snd (make_api_call healthy_provider current_request busy_net)) = [current_request]
   \<and> sleeps (snd (make_api_call healthy_provider current_request busy_net)) = [1, 2, 47]
   \<and> respond throttling_provider (length (requests_sent fresh_net)) current_request
        = Response 429 Not_json
   \<and> fst (make_api_call throttling_provider current_request fresh_net) = Inl (HTTPError 429)
   \<and> requests_sent (snd (make_api_call throttling_provider current_request fresh_net))
        = [current_request]
   \<and> sleeps (snd (make_api_call throttling_provider current_request fresh_net)) = []"
proof -
  have a: "is_rate_limit (fst (on_exception 2 healthy_provider current_request busy_net))"
    by (simp add: busy_net_refused is_rate_limit_def)
  have b: "num_calls busy_net = 30" "clock busy_net - last_reset busy_net = 10"
    "requests_sent busy_net = []" "sleeps busy_net = []"
    by (simp_all add: busy_net_def)
  have c: "response_result (respond healthy_provider 0 current_request) = Inr []"
    by (simp add: healthy_provider_def response_result_def)
  from make_api_call_retries [of healthy_provider current_request busy_net] a
  have 1: "fst (make_api_call healthy_provider current_request busy_net) = Inr []"
    "requests_sent (snd (make_api_call healthy_provider current_request busy_net)) = [current_request]"
    "sleeps (snd (make_api_call healthy_provider current_request busy_net)) = [1, 2, 47]"
    by (simp_all add: b c busy_net_refused)
  have d: "respond throttling_provider (length (requests_sent fresh_net)) current_request
        = Response 429 Not_json"
    "requests_sent fresh_net = []" "sleeps fresh_net = []" "num_calls fresh_net < 30"
    by (simp_all add: throttling_provider_def fresh_net_def)
  from make_api_call_retries [of throttling_provider current_request fresh_net] d
  have 2: "fst (make_api_call throttling_provider current_request fresh_net) = Inl (HTTPError 429)"
    "requests_sent (snd (make_api_call throttling_provider current_request fresh_net))
        = [current_request]"
    "sleeps (snd (make_api_call throttling_provider current_request fresh_net)) = []"
    by (simp_all add: response_result_def)
  from a b 1 2 d(1) show ?thesis
    by (simp add: busy_net_refused)
qed

text \<open>
  C8 as stated fails: a rate-limit rejection of the provider (status 429) is not retried;
  the call returns \<open>HTTPError 429\<close> after one request, without any wait.
\<close>

theorem make_api_call_429_not_retried:
  "make_api_call throttling_provider current_request fresh_net =
     (Inl (HTTPError 429),
      \<lparr> clock = 1 / 2, num_calls = 1, last_reset = 0, requests_sent = [current_request],
        sleeps = [] \<rparr>)"
  unfolding make_api_call_def
  by (subst sleep_and_retry.simps)
     (simp add: eval_nat_numeral on_exception.simps limits_def api_body_def response_result_def
        fresh_net_def throttling_provider_def Let_def)

end
